theory Spec2Isabelle
  imports Main
begin

section \<open>Domain types of \<open>moderatelyTestable.ts\<close>\<close>

text \<open>
  Strings are lists of code units. \<open>Date.now()\<close> and \<open>Date.getTime()\<close> are
  integers (milliseconds); a \<open>Date\<close> whose time value is \<open>NaN\<close> is \<open>InvalidDate\<close>.
\<close>

datatype theme = Light | Dark | System

text \<open>
  A property of an object at run time: the object has no such key, has the key with the
  value \<open>undefined\<close>, or has it with a value. The declared types say what a well-typed
  object holds: a \<open>UserPreferences\<close> has the three keys with values, a
  \<open>Partial<UserPreferences>\<close> may have each key absent, \<open>undefined\<close> or with a value.
  Both are the same objects at run time, and the spread of
  \<open>updateUserPreferences\<close> can leave \<open>undefined\<close> in a \<open>UserPreferences\<close>.
\<close>

datatype 'a property = Absent | Undefined | Value 'a

record UserPreferences =
  theme :: "theme property"
  notifications :: "bool property"
  language :: "string property"

type_synonym PartialPreferences = UserPreferences

datatype js_date = ValidDate int | InvalidDate

record User =
  ident :: string
  name :: string
  email :: string
  lastLogin :: "js_date option"
  preferences :: "UserPreferences option"

text \<open>
  Values thrown in the program: a \<open>TypeError\<close> of the runtime (a property read on
  \<open>undefined\<close>), a rejection of the remote client, an exception of the storage, a
  \<open>SyntaxError\<close> of \<open>JSON.parse\<close>, and \<open>new Error(message)\<close>.
\<close>

datatype error =
    TypeError
  | RequestFailed string
  | StorageFailure
  | SyntaxError
  | Failure string

section \<open>String operations of the runtime\<close>

text \<open>\<open>s.split(c)\<close> for a separator of one code unit: never empty, \<open>''''.split(c) = ['''']\<close>.\<close>

fun split_on :: "char \<Rightarrow> string \<Rightarrow> string list" where
  "split_on c [] = [[]]"
| "split_on c (x # xs) =
     (if x = c then [] # split_on c xs
      else (case split_on c xs of
              [] \<Rightarrow> [[x]]
            | p # ps \<Rightarrow> (x # p) # ps))"

text \<open>\<open>a[i]\<close> on an array: \<open>undefined\<close> (here \<open>None\<close>) out of range.\<close>

definition at_index :: "'a list \<Rightarrow> nat \<Rightarrow> 'a option" where
  "at_index xs i = (if i < length xs then Some (xs ! i) else None)"

definition endsWith :: "string \<Rightarrow> string \<Rightarrow> bool" where
  "endsWith s suf =
     (length suf \<le> length s \<and> drop (length s - length suf) s = suf)"

text \<open>
  The white space and line terminators that \<open>trim()\<close> removes, among the code units
  below 256: TAB, LF, VT, FF, CR, SPACE and NBSP.
\<close>

definition isWhiteSpace :: "char \<Rightarrow> bool" where
  "isWhiteSpace c = ((of_char c :: nat) \<in> {9, 10, 11, 12, 13, 32, 160})"

definition trim :: "string \<Rightarrow> string" where
  "trim s = rev (dropWhile isWhiteSpace (rev (dropWhile isWhiteSpace s)))"

section \<open>\<open>UserService.calculateUserScore\<close>\<close>

text \<open>
  Factor 1. \<open>user.email.split('@')[1]\<close> is \<open>undefined\<close> when the address has no
  \<open>@\<close>; the two \<open>===\<close> tests are then false and \<open>domain.endsWith\<close> throws.
\<close>

definition emailFactor :: "string \<Rightarrow> error + int" where
  "emailFactor e =
     (if e = [] then Inr 0
      else (case at_index (split_on CHR ''@'' e) 1 of
              None \<Rightarrow> Inl TypeError
            | Some domain \<Rightarrow>
                Inr (if domain = ''gmail.com'' then 5
                     else if domain = ''hotmail.com'' then 3
                     else if endsWith domain ''.edu'' then 10
                     else if endsWith domain ''.gov'' then 15
                     else 2)))"

text \<open>
  Factor 2. \<open>daysSinceLogin = (Date.now() - lastLogin.getTime()) / 86400000\<close>, compared
  with 1, 7 and 30. For integer milliseconds \<open>d / 86400000 < k\<close> holds exactly when
  \<open>d < k * 86400000\<close>, so the quotient is not formed. With an invalid date the
  difference is \<open>NaN\<close> and every comparison is false.
\<close>

definition loginFactor :: "int \<Rightarrow> js_date option \<Rightarrow> int" where
  "loginFactor now l =
     (case l of
        None \<Rightarrow> 0
      | Some InvalidDate \<Rightarrow> 0
      | Some (ValidDate t) \<Rightarrow>
          (if now - t < 1 * 86400000 then 20
           else if now - t < 7 * 86400000 then 15
           else if now - t < 30 * 86400000 then 5
           else 0))"

text \<open>Factor 3.\<close>

definition nameFactor :: "string \<Rightarrow> int" where
  "nameFactor n =
     (if n = [] then 0
      else
        (let nameParts = split_on CHR '' '' (trim n);
             totalLength = length n
         in min (int (length nameParts) * 2) 10
            + (if totalLength > 15 then 3
               else if totalLength > 10 then 2
               else if totalLength > 5 then 1
               else 0)))"

text \<open>
  Factor 4. A key that is absent or \<open>undefined\<close> reads as \<open>undefined\<close>, which is falsy
  and equal to no string.
\<close>

definition preferencesFactor :: "UserPreferences option \<Rightarrow> int" where
  "preferencesFactor p =
     (case p of
        None \<Rightarrow> 0
      | Some q \<Rightarrow>
          (if notifications q = Value True then 5 else 0)
          + (if theme q = Value Dark then 2 else 0)
          + (if (case language q of Value l \<Rightarrow> l \<noteq> [] \<and> l \<noteq> ''en'' | _ \<Rightarrow> False)
             then 3 else 0))"

text \<open>
  The score is a sum of integers, so \<open>Math.round\<close> returns it unchanged. The first
  argument is the value of \<open>Date.now()\<close>; \<open>None\<close> is a \<open>null\<close> user.
\<close>

definition calculateUserScore :: "int \<Rightarrow> User option \<Rightarrow> error + int" where
  "calculateUserScore now user =
     (case user of
        None \<Rightarrow> Inr 0
      | Some u \<Rightarrow>
          (case emailFactor (email u) of
             Inl err \<Rightarrow> Inl err
           | Inr f1 \<Rightarrow>
               Inr (10 + f1 + loginFactor now (lastLogin u) + nameFactor (name u)
                    + preferencesFactor (preferences u))))"

section \<open>Collaborators of \<open>UserService\<close>\<close>

text \<open>
  What \<open>JSON.parse\<close> yields for a stored user: JSON has no dates, so \<open>lastLogin\<close> is
  the string that \<open>JSON.stringify\<close> wrote (or absent). The parsed value is taken to
  be an object of this shape, as the cast \<open>as User\<close> of the source takes it.
\<close>

record StoredUser =
  s_ident :: string
  s_name :: string
  s_email :: string
  s_lastLogin :: "string option"
  s_preferences :: "UserPreferences option"

text \<open>Calls on the \<open>ApiClient\<close>, and what awaiting one gives after some time.\<close>

datatype request = GET string | POST string UserPreferences

record response =
  latency :: nat
  outcome :: "error + User"

text \<open>Calls on the \<open>Logger\<close>: \<open>log(message, data)\<close> and \<open>error(message, error)\<close>.\<close>

datatype log_data = ForId string | ForUpdate string PartialPreferences

datatype log_entry = Log string log_data | LogError string error

text \<open>
  The injected collaborators and the built-ins of the runtime, as parameters: the remote
  client, \<open>JSON.stringify\<close> (total on a \<open>User\<close>), \<open>JSON.parse\<close> (\<open>None\<close>: it
  throws), the \<open>Date\<close> constructor on a string, and when the storage throws. The
  logger never throws.
\<close>

record env =
  apiClient :: "request \<Rightarrow> response"
  stringify :: "User \<Rightarrow> string"
  parse :: "string \<Rightarrow> StoredUser option"
  newDate :: "string \<Rightarrow> js_date"
  setItemThrows :: "string \<Rightarrow> string \<Rightarrow> bool"
  getItemThrows :: "string \<Rightarrow> bool"

text \<open>
  The private fields of \<open>UserService\<close>, with the contents of the storage, the clock
  read by \<open>Date.now()\<close>, and the calls received by the logger and by the remote client.
\<close>

record world =
  cachedUsers :: "string \<rightharpoonup> User"
  lastFetchTime :: int
  fetchInProgress :: bool
  cacheDuration :: int
  items :: "string \<rightharpoonup> string"
  clock :: int
  logged :: "log_entry list"
  requests :: "request list"

definition logger_log :: "string \<Rightarrow> log_data \<Rightarrow> world \<Rightarrow> world" where
  "logger_log m d w = w\<lparr>logged := logged w @ [Log m d]\<rparr>"

definition logger_error :: "string \<Rightarrow> error \<Rightarrow> world \<Rightarrow> world" where
  "logger_error m e w = w\<lparr>logged := logged w @ [LogError m e]\<rparr>"

section \<open>Storage helpers\<close>

definition saveUserToStorage :: "env \<Rightarrow> User \<Rightarrow> world \<Rightarrow> world" where
  "saveUserToStorage env user w =
     (let key = ''user_'' @ ident user;
          val = stringify env user
      in if setItemThrows env key val
         then logger_error ''Failed to save user to storage'' StorageFailure w
         else w\<lparr>items := (items w)(key \<mapsto> val)\<rparr>)"

text \<open>
  \<open>if (user.lastLogin) user.lastLogin = new Date(user.lastLogin)\<close>: an empty string is
  falsy and is left in place; every later test of the field treats it as absent, and so
  does the model.
\<close>

definition rehydrate :: "env \<Rightarrow> StoredUser \<Rightarrow> User" where
  "rehydrate env su =
     \<lparr>ident = s_ident su, name = s_name su, email = s_email su,
      lastLogin =
        (case s_lastLogin su of
           None \<Rightarrow> None
         | Some str \<Rightarrow> if str = [] then None else Some (newDate env str)),
      preferences = s_preferences su\<rparr>"

definition getUserFromStorage :: "env \<Rightarrow> string \<Rightarrow> world \<Rightarrow> User option \<times> world" where
  "getUserFromStorage env uid w =
     (let key = ''user_'' @ uid
      in if getItemThrows env key
         then (None, logger_error ''Failed to get user from storage'' StorageFailure w)
         else (case items w key of
                 None \<Rightarrow> (None, w)
               | Some data \<Rightarrow>
                   if data = [] then (None, w)
                   else (case parse env data of
                           None \<Rightarrow>
                             (None, logger_error ''Failed to get user from storage'' SyntaxError w)
                         | Some su \<Rightarrow> (Some (rehydrate env su), w))))"

section \<open>\<open>UserService.getUserById\<close>\<close>

text \<open>
  The synchronous part of a call, up to the first suspension: a cache hit returns, a set
  flag arms a timer of 100 ms, otherwise the flag is set and the GET is issued. \<open>Fetch\<close>
  keeps the \<open>now\<close> that was read before the request.
\<close>

datatype attempt = Hit User | Retry nat | Fetch string int

definition getUserById_begin :: "string \<Rightarrow> world \<Rightarrow> attempt \<times> world" where
  "getUserById_begin uid w =
     (let cachedUser = cachedUsers w uid;
          now = clock w
      in if cachedUser \<noteq> None \<and> now - lastFetchTime w < cacheDuration w
         then (Hit (the cachedUser), logger_log ''Cache hit for user'' (ForId uid) w)
         else if fetchInProgress w then (Retry 100, w)
         else
           (let url = ''/users/'' @ uid;
                w1 = logger_log ''Fetching user data'' (ForId uid)
                       (w\<lparr>fetchInProgress := True\<rparr>)
            in (Fetch url now, w1\<lparr>requests := requests w1 @ [GET url]\<rparr>)))"

text \<open>
  The rest of the \<open>try\<close> statement once the GET has settled: the \<open>try\<close> block after the
  \<open>await\<close>, or the \<open>catch\<close> block, and \<open>finally\<close>.
\<close>

definition getUserById_resume ::
  "env \<Rightarrow> string \<Rightarrow> int \<Rightarrow> error + User \<Rightarrow> world \<Rightarrow> (error + User) \<times> world" where
  "getUserById_resume env uid now settled w =
     (case settled of
        Inr user \<Rightarrow>
          (let w1 = w\<lparr>cachedUsers := (cachedUsers w)(uid \<mapsto> user)\<rparr>;
               w2 = w1\<lparr>lastFetchTime := now\<rparr>;
               w3 = saveUserToStorage env user w2
           in (Inr user, w3\<lparr>fetchInProgress := False\<rparr>))
      | Inl err \<Rightarrow>
          (let w1 = logger_error ''Failed to fetch user'' err w;
               (storedUser, w2) = getUserFromStorage env uid w1
           in (case storedUser of
                 Some u \<Rightarrow> (Inr u, w2\<lparr>fetchInProgress := False\<rparr>)
               | None \<Rightarrow>
                   (Inl (Failure (''Failed to fetch user with ID '' @ uid)),
                    w2\<lparr>fetchInProgress := False\<rparr>))))"

text \<open>
  A call run to its end with nothing else interleaved: waiting advances the clock by the
  timer's delay or by the latency of the request. The first argument bounds the number of
  attempts; \<open>None\<close> is a call that has not returned within them.
\<close>

fun getUserById :: "nat \<Rightarrow> env \<Rightarrow> string \<Rightarrow> world \<Rightarrow> ((error + User) \<times> world) option" where
  "getUserById 0 env uid w = None"
| "getUserById (Suc n) env uid w =
     (case getUserById_begin uid w of
        (Hit u, w1) \<Rightarrow> Some (Inr u, w1)
      | (Retry d, w1) \<Rightarrow> getUserById n env uid (w1\<lparr>clock := clock w1 + int d\<rparr>)
      | (Fetch url now, w1) \<Rightarrow>
          (let r = apiClient env (GET url)
           in Some (getUserById_resume env uid now (outcome r)
                      (w1\<lparr>clock := clock w1 + int (latency r)\<rparr>))))"

section \<open>\<open>UserService.updateUserPreferences\<close>\<close>

definition defaultPreferences :: UserPreferences where
  "defaultPreferences =
     \<lparr>theme = Value System, notifications = Value False, language = Value ''en''\<rparr>"

text \<open>
  \<open>{...a, ...b}\<close>: the spread copies every own property of \<open>b\<close> over that of \<open>a\<close>,
  one whose value is \<open>undefined\<close> too; a key that \<open>b\<close> does not have stays as in \<open>a\<close>.
\<close>

definition spreadProperty :: "'a property \<Rightarrow> 'a property \<Rightarrow> 'a property" where
  "spreadProperty a b =
     (case b of Absent \<Rightarrow> a | Undefined \<Rightarrow> Undefined | Value v \<Rightarrow> Value v)"

definition spread :: "UserPreferences \<Rightarrow> UserPreferences \<Rightarrow> UserPreferences" where
  "spread a b =
     \<lparr>theme = spreadProperty (theme a) (theme b),
      notifications = spreadProperty (notifications a) (notifications b),
      language = spreadProperty (language a) (language b)\<rparr>"

text \<open>\<open>...undefined\<close> copies nothing: it spreads like an object with no keys.\<close>

definition noProperties :: UserPreferences where
  "noProperties = \<lparr>theme = Absent, notifications = Absent, language = Absent\<rparr>"

definition updatedPreferences :: "User \<Rightarrow> PartialPreferences \<Rightarrow> UserPreferences" where
  "updatedPreferences user p =
     spread
       (spread defaultPreferences
          (case preferences user of None \<Rightarrow> noProperties | Some q \<Rightarrow> q))
       p"

text \<open>From the settled \<open>getUserById\<close> to the POST.\<close>

datatype update_step = Rejected error | Posted string UserPreferences

definition update_after_fetch ::
  "string \<Rightarrow> PartialPreferences \<Rightarrow> error + User \<Rightarrow> world \<Rightarrow> update_step \<times> world" where
  "update_after_fetch userId p fetched w =
     (case fetched of
        Inl err \<Rightarrow>
          (Rejected (Failure (''Failed to update preferences for user '' @ userId)),
           logger_error ''Failed to update preferences'' err w)
      | Inr user \<Rightarrow>
          (let up = updatedPreferences user p;
               url = ''/users/'' @ userId @ ''/preferences''
           in (Posted url up, w\<lparr>requests := requests w @ [POST url up]\<rparr>)))"

text \<open>From the settled POST to the end.\<close>

definition update_after_post ::
  "env \<Rightarrow> string \<Rightarrow> PartialPreferences \<Rightarrow> UserPreferences \<Rightarrow> error + User \<Rightarrow> world
   \<Rightarrow> (error + User) \<times> world" where
  "update_after_post env userId p up settled w =
     (case settled of
        Inl err \<Rightarrow>
          (Inl (Failure (''Failed to update preferences for user '' @ userId)),
           logger_error ''Failed to update preferences'' err w)
      | Inr posted \<Rightarrow>
          (let user = posted\<lparr>preferences := Some up\<rparr>;
               w1 = w\<lparr>cachedUsers := (cachedUsers w)(userId \<mapsto> user)\<rparr>;
               w2 = saveUserToStorage env user w1;
               w3 = logger_log ''Updated user preferences'' (ForUpdate userId p) w2
           in (Inr user, w3)))"

definition updateUserPreferences ::
  "nat \<Rightarrow> env \<Rightarrow> string \<Rightarrow> PartialPreferences \<Rightarrow> world
   \<Rightarrow> ((error + User) \<times> world) option" where
  "updateUserPreferences n env userId p w =
     (case getUserById n env userId w of
        None \<Rightarrow> None
      | Some (fetched, w1) \<Rightarrow>
          (case update_after_fetch userId p fetched w1 of
             (Rejected err, w2) \<Rightarrow> Some (Inl err, w2)
           | (Posted url up, w2) \<Rightarrow>
               (let r = apiClient env (POST url up)
                in Some (update_after_post env userId p up (outcome r)
                           (w2\<lparr>clock := clock w2 + int (latency r)\<rparr>)))))"

section \<open>\<open>UserService.clearCache\<close>\<close>

definition clearCache :: "world \<Rightarrow> world" where
  "clearCache w = w\<lparr>cachedUsers := Map.empty, lastFetchTime := 0\<rparr>"

section \<open>Interleaved calls\<close>

text \<open>
  The runtime is one thread with cooperative suspension: calls interleave only where one
  awaits. A suspended call is a task: a timer armed by the de-duplication step, a GET
  that has not settled (with the \<open>now\<close> the call read), or a POST that has not settled.
  \<open>caller\<close> says who awaits a \<open>getUserById\<close>: the user of the service, or
  \<open>updateUserPreferences\<close>. A result is handed to its caller in the same step: the
  continuation of \<open>updateUserPreferences\<close> after its first \<open>await\<close> reads nothing of
  the service but the user it was given.
\<close>

datatype caller = Direct | FromUpdate PartialPreferences

datatype task =
    Timer int string caller
  | Fetching string int caller
  | Posting string PartialPreferences UserPreferences

text \<open>
  What the runtime does next: a new call enters, a timer fires, or a request of the task
  at the given position settles with the given result.
\<close>

datatype event =
    CallGet string
  | CallUpdate string PartialPreferences
  | CallClear
  | TimerFires nat
  | GetSettles nat "error + User"
  | PostSettles nat "error + User"

record sys =
  world :: world
  tasks :: "task list"
  returned :: "(string \<times> (error + User)) list"

definition isFetching :: "task \<Rightarrow> bool" where
  "isFetching t = (case t of Fetching _ _ _ \<Rightarrow> True | _ \<Rightarrow> False)"

definition inFlight :: "sys \<Rightarrow> nat" where
  "inFlight s = length (filter isFetching (tasks s))"

definition remove_task :: "nat \<Rightarrow> task list \<Rightarrow> task list" where
  "remove_task k ts = take k ts @ drop (Suc k) ts"

text \<open>A \<open>getUserById\<close> has settled: hand the result to whoever awaits it.\<close>

definition deliver :: "string \<Rightarrow> caller \<Rightarrow> error + User \<Rightarrow> sys \<Rightarrow> sys" where
  "deliver uid k r s =
     (case k of
        Direct \<Rightarrow> s\<lparr>returned := returned s @ [(uid, r)]\<rparr>
      | FromUpdate p \<Rightarrow>
          (case update_after_fetch uid p r (world s) of
             (Rejected err, w1) \<Rightarrow>
               s\<lparr>world := w1, returned := returned s @ [(uid, Inl err)]\<rparr>
           | (Posted url up, w1) \<Rightarrow>
               s\<lparr>world := w1, tasks := tasks s @ [Posting uid p up]\<rparr>))"

text \<open>One attempt of \<open>getUserById\<close>, from its first line to its first suspension.\<close>

definition attempt_call :: "string \<Rightarrow> caller \<Rightarrow> sys \<Rightarrow> sys" where
  "attempt_call uid k s =
     (case getUserById_begin uid (world s) of
        (Hit u, w1) \<Rightarrow> deliver uid k (Inr u) (s\<lparr>world := w1\<rparr>)
      | (Retry d, w1) \<Rightarrow>
          s\<lparr>world := w1, tasks := tasks s @ [Timer (clock w1 + int d) uid k]\<rparr>
      | (Fetch url now, w1) \<Rightarrow>
          s\<lparr>world := w1, tasks := tasks s @ [Fetching uid now k]\<rparr>)"

text \<open>
  One event at the given time; \<open>None\<close> when the event cannot happen (no such task, or a
  timer that is not due).
\<close>

definition step :: "env \<Rightarrow> int \<times> event \<Rightarrow> sys \<Rightarrow> sys option" where
  "step env te s0 =
     (let s = s0\<lparr>world := (world s0)\<lparr>clock := fst te\<rparr>\<rparr>
      in case snd te of
           CallGet uid \<Rightarrow> Some (attempt_call uid Direct s)
         | CallUpdate uid p \<Rightarrow> Some (attempt_call uid (FromUpdate p) s)
         | CallClear \<Rightarrow> Some (s\<lparr>world := clearCache (world s)\<rparr>)
         | TimerFires i \<Rightarrow>
             (case at_index (tasks s) i of
                Some (Timer due uid k) \<Rightarrow>
                  if due \<le> fst te
                  then Some (attempt_call uid k (s\<lparr>tasks := remove_task i (tasks s)\<rparr>))
                  else None
              | _ \<Rightarrow> None)
         | GetSettles i r \<Rightarrow>
             (case at_index (tasks s) i of
                Some (Fetching uid now k) \<Rightarrow>
                  (case getUserById_resume env uid now r (world s) of
                     (res, w1) \<Rightarrow>
                       Some (deliver uid k res
                               (s\<lparr>world := w1, tasks := remove_task i (tasks s)\<rparr>)))
              | _ \<Rightarrow> None)
         | PostSettles i r \<Rightarrow>
             (case at_index (tasks s) i of
                Some (Posting uid p up) \<Rightarrow>
                  (case update_after_post env uid p up r (world s) of
                     (res, w1) \<Rightarrow>
                       Some (s\<lparr>world := w1, tasks := remove_task i (tasks s),
                               returned := returned s @ [(uid, res)]\<rparr>))
              | _ \<Rightarrow> None))"

fun run :: "env \<Rightarrow> (int \<times> event) list \<Rightarrow> sys \<Rightarrow> sys option" where
  "run env [] s = Some s"
| "run env (te # tes) s =
     (case step env te s of None \<Rightarrow> None | Some s1 \<Rightarrow> run env tes s1)"

text \<open>A service as the constructor leaves it, in a world with nothing suspended.\<close>

definition idle :: "sys \<Rightarrow> bool" where
  "idle s = (tasks s = [] \<and> \<not> fetchInProgress (world s))"

section \<open>The specification's scoring rule for the contact address\<close>

text \<open>
  The specification's words, to be compared with \<open>emailFactor\<close>: the domain is the
  substring after the first \<open>@\<close>, and the bonus is read off the domain.
\<close>

definition after_first_at :: "string \<Rightarrow> string" where
  "after_first_at e = tl (dropWhile (\<lambda>c. c \<noteq> CHR ''@'') e)"

definition spec_domain_bonus :: "string \<Rightarrow> int" where
  "spec_domain_bonus d =
     (if d = ''gmail.com'' then 5
      else if d = ''hotmail.com'' then 3
      else if endsWith d ''.edu'' then 10
      else if endsWith d ''.gov'' then 15
      else 2)"

section \<open>Example values\<close>

definition two_at_user :: User where
  "two_at_user =
     \<lparr>ident = ''7'', name = ''Jo Lee'', email = ''a@gmail.com@x'', lastLogin = None,
      preferences = None\<rparr>"

definition edu_user :: User where
  "edu_user =
     \<lparr>ident = ''8'', name = ''Jo Lee'', email = ''jo@mit.edu'', lastLogin = None,
      preferences = None\<rparr>"

definition no_at_user :: User where
  "no_at_user =
     \<lparr>ident = ''9'', name = ''Jo Lee'', email = ''jo.example.com'', lastLogin = None,
      preferences = None\<rparr>"

section \<open>The cache check of the specification\<close>

text \<open>
  A cache entry for the identifier exists, and the current time less the shared
  freshness clock is strictly below the cache duration.
\<close>

definition cacheFresh :: "string \<Rightarrow> world \<Rightarrow> bool" where
  "cacheFresh uid w =
     (cachedUsers w uid \<noteq> None \<and> clock w - lastFetchTime w < cacheDuration w)"

section \<open>Example collaborators and worlds\<close>

definition demo_user :: User where
  "demo_user =
     \<lparr>ident = ''u1'', name = ''Jo Lee'', email = ''jo@gmail.com'',
      lastLogin = Some (ValidDate 500),
      preferences =
        Some \<lparr>theme = Value Dark, notifications = Value True, language = Value ''en''\<rparr>\<rparr>"

definition demo_stored :: StoredUser where
  "demo_stored =
     \<lparr>s_ident = ''u2'', s_name = ''Ann'', s_email = ''ann@nasa.gov'',
      s_lastLogin = Some ''1970-01-01T00:00:00.500Z'', s_preferences = None\<rparr>"

text \<open>
  A remote client that knows the user \<open>u1\<close> only, answers a GET after 500 ms and a
  POST after 300 ms, and answers the POST with preferences of its own; a storage whose
  \<open>setItem\<close> throws on every call when it is full, and whose \<open>getItem\<close> never
  throws.
\<close>

definition demo_api :: "request \<Rightarrow> response" where
  "demo_api req =
     (case req of
        GET url \<Rightarrow>
          \<lparr>latency = 500,
           outcome = (if url = ''/users/u1'' then Inr demo_user
                      else Inl (RequestFailed ''HTTP error 404''))\<rparr>
      | POST url up \<Rightarrow>
          \<lparr>latency = 300,
           outcome = (if url = ''/users/u1/preferences''
                      then Inr (demo_user\<lparr>preferences := Some defaultPreferences\<rparr>)
                      else Inl (RequestFailed ''HTTP error 500''))\<rparr>)"

definition demo_env :: "bool \<Rightarrow> env" where
  "demo_env full =
     \<lparr>apiClient = demo_api,
      stringify = (\<lambda>u. ''{'' @ ident u @ ''}''),
      parse = (\<lambda>s. if s = ''{u2}'' then Some demo_stored else None),
      newDate = (\<lambda>s. if s = ''1970-01-01T00:00:00.500Z'' then ValidDate 500 else InvalidDate),
      setItemThrows = (\<lambda>k v. full),
      getItemThrows = (\<lambda>k. False)\<rparr>"

definition new_world :: world where
  "new_world =
     \<lparr>cachedUsers = Map.empty, lastFetchTime = 0, fetchInProgress = False,
      cacheDuration = 60000, items = [''user_u2'' \<mapsto> ''{u2}''], clock = 1000, logged = [],
      requests = []\<rparr>"

definition fresh_world :: world where
  "fresh_world = new_world\<lparr>cachedUsers := [''u1'' \<mapsto> demo_user], lastFetchTime := 1000,
     clock := 2000\<rparr>"

definition stale_world :: world where
  "stale_world = fresh_world\<lparr>clock := 61000\<rparr>"

text \<open>The world that a fetch of \<open>u1\<close> leaves when it starts in \<open>new_world\<close>.\<close>

definition fetched_world :: world where
  "fetched_world =
     \<lparr>cachedUsers = [''u1'' \<mapsto> demo_user], lastFetchTime = 1000, fetchInProgress = False,
      cacheDuration = 60000, items = [''user_u2'' \<mapsto> ''{u2}'', ''user_u1'' \<mapsto> ''{u1}''],
      clock = 1500, logged = [Log ''Fetching user data'' (ForId ''u1'')],
      requests = [GET ''/users/u1'']\<rparr>"

section \<open>The specification's merge of preferences\<close>




text \<open>
  An update of the language alone and the world it leaves from \<open>fresh_world\<close>, and an
  update whose \<open>language\<close> key is present with the value \<open>undefined\<close>.
\<close>

definition french :: PartialPreferences where
  "french = \<lparr>theme = Absent, notifications = Absent, language = Value ''fr''\<rparr>"


definition updated_user :: User where
  "updated_user =
     demo_user\<lparr>preferences :=
       Some \<lparr>theme = Value Dark, notifications = Value True, language = Value ''fr''\<rparr>\<rparr>"


definition updated_world :: "bool \<Rightarrow> world" where
  "updated_world full =
     \<lparr>cachedUsers = [''u1'' \<mapsto> updated_user], lastFetchTime = 1000, fetchInProgress = False,
      cacheDuration = 60000,
      items = (if full then [''user_u2'' \<mapsto> ''{u2}'']
               else [''user_u2'' \<mapsto> ''{u2}'', ''user_u1'' \<mapsto> ''{u1}'']),
      clock = 2300,
      logged = [Log ''Cache hit for user'' (ForId ''u1'')]
               @ (if full then [LogError ''Failed to save user to storage'' StorageFailure]
                  else [])
               @ [Log ''Updated user preferences'' (ForUpdate ''u1'' french)],
      requests = [POST ''/users/u1/preferences''
                    \<lparr>theme = Value Dark, notifications = Value True,
                       language = Value ''fr''\<rparr>]\<rparr>"

text \<open>The world that a failed fetch of \<open>u4\<close> leaves from \<open>new_world\<close>.\<close>

definition failed_world :: world where
  "failed_world =
     new_world\<lparr>clock := 1500,
       logged := [Log ''Fetching user data'' (ForId ''u4''),
                  LogError ''Failed to fetch user'' (RequestFailed ''HTTP error 404'')],
       requests := [GET ''/users/u4'']\<rparr>"

text \<open>A world whose cache holds a fresh entry for \<open>u5\<close>, unknown to the remote client.\<close>

definition fresh_world5 :: world where
  "fresh_world5 = fresh_world\<lparr>cachedUsers := [''u5'' \<mapsto> demo_user]\<rparr>"

section \<open>The in-flight flag and the suspended fetches\<close>

text \<open>The flag is set exactly when one GET has not settled, and never more than one.\<close>

definition flagMatches :: "sys \<Rightarrow> bool" where
  "flagMatches s = (inFlight s = (if fetchInProgress (world s) then 1 else 0))"

text \<open>
  Two calls, for \<open>u1\<close> and ten milliseconds later for \<open>u2\<close>: the world while the first
  GET has not settled, and the world when both calls have returned (the second GET is
  refused and the storage serves \<open>u2\<close>).
\<close>

definition start_sys :: sys where
  "start_sys = \<lparr>world = new_world, tasks = [], returned = []\<rparr>"

definition two_calls :: "(int \<times> event) list" where
  "two_calls = [(1000, CallGet ''u1''), (1010, CallGet ''u2'')]"

definition waiting_sys :: sys where
  "waiting_sys =
     \<lparr>world = new_world\<lparr>fetchInProgress := True, clock := 1010,
                logged := [Log ''Fetching user data'' (ForId ''u1'')],
                requests := [GET ''/users/u1'']\<rparr>,
      tasks = [Fetching ''u1'' 1000 Direct, Timer 1110 ''u2'' Direct],
      returned = []\<rparr>"

definition two_calls_settled :: "(int \<times> event) list" where
  "two_calls_settled =
     [(1000, CallGet ''u1''), (1010, CallGet ''u2''),
      (1500, GetSettles 0 (Inr demo_user)), (1600, TimerFires 0),
      (1900, GetSettles 0 (Inl (RequestFailed ''HTTP error 404'')))]"

definition quiet_sys :: sys where
  "quiet_sys =
     \<lparr>world = new_world\<lparr>cachedUsers := [''u1'' \<mapsto> demo_user], lastFetchTime := 1000,
                items := [''user_u2'' \<mapsto> ''{u2}'', ''user_u1'' \<mapsto> ''{u1}''],
                clock := 1900,
                logged := [Log ''Fetching user data'' (ForId ''u1''),
                           Log ''Fetching user data'' (ForId ''u2''),
                           LogError ''Failed to fetch user'' (RequestFailed ''HTTP error 404'')],
                requests := [GET ''/users/u1'', GET ''/users/u2'']\<rparr>,
      tasks = [],
      returned = [(''u1'', Inr demo_user), (''u2'', Inr (rehydrate (demo_env False) demo_stored))]\<rparr>"

section \<open>Facts about the string operations\<close>

lemma split_on_not_Nil: "split_on c s \<noteq> []"
  by (induction s) (auto split: list.splits)

lemma split_on_unfold:
  "split_on c s =
     takeWhile (\<lambda>x. x \<noteq> c) s
     # (if c \<in> set s then split_on c (tl (dropWhile (\<lambda>x. x \<noteq> c) s)) else [])"
  by (induction s) (auto split: list.splits simp: split_on_not_Nil)

lemma split_on_second:
  "at_index (split_on c s) (Suc 0) =
     (if c \<in> set s
      then Some (takeWhile (\<lambda>x. x \<noteq> c) (tl (dropWhile (\<lambda>x. x \<noteq> c) s)))
      else None)"
proof (cases "c \<in> set s")
  case True
  let ?r = "tl (dropWhile (\<lambda>x. x \<noteq> c) s)"
  have "split_on c s = takeWhile (\<lambda>x. x \<noteq> c) s # split_on c ?r"
    using True split_on_unfold [of c s] by simp
  moreover obtain q qs where "split_on c ?r = q # qs" "q = takeWhile (\<lambda>x. x \<noteq> c) ?r"
    using split_on_unfold [of c ?r] by simp
  ultimately show ?thesis using True by (simp add: at_index_def)
next
  case False
  then show ?thesis using split_on_unfold [of c s] by (simp add: at_index_def)
qed

lemma emailFactor_with_at:
  "CHR ''@'' \<in> set e \<Longrightarrow>
   emailFactor e =
     Inr (spec_domain_bonus (takeWhile (\<lambda>c. c \<noteq> CHR ''@'') (after_first_at e)))"
  by (auto simp: emailFactor_def split_on_second spec_domain_bonus_def after_first_at_def)

lemma emailFactor_no_at:
  "e \<noteq> [] \<Longrightarrow> CHR ''@'' \<notin> set e \<Longrightarrow> emailFactor e = Inl TypeError"
  by (simp add: emailFactor_def split_on_second)

lemmas score_defs =
  calculateUserScore_def emailFactor_def at_index_def loginFactor_def nameFactor_def
  preferencesFactor_def trim_def isWhiteSpace_def endsWith_def

section \<open>Facts about \<open>getUserById\<close>\<close>

lemma begin_hit:
  "cacheFresh uid w \<Longrightarrow> cachedUsers w uid = Some u \<Longrightarrow>
   getUserById_begin uid w = (Hit u, logger_log ''Cache hit for user'' (ForId uid) w)"
  by (simp add: getUserById_begin_def cacheFresh_def)

lemma begin_retry:
  "\<not> cacheFresh uid w \<Longrightarrow> fetchInProgress w \<Longrightarrow> getUserById_begin uid w = (Retry 100, w)"
  by (auto simp: getUserById_begin_def cacheFresh_def)

lemma begin_fetch:
  "\<not> cacheFresh uid w \<Longrightarrow> \<not> fetchInProgress w \<Longrightarrow>
   getUserById_begin uid w =
     (Fetch (''/users/'' @ uid) (clock w),
      w\<lparr>fetchInProgress := True,
        logged := logged w @ [Log ''Fetching user data'' (ForId uid)],
        requests := requests w @ [GET (''/users/'' @ uid)]\<rparr>)"
  by (auto simp: getUserById_begin_def cacheFresh_def logger_log_def Let_def)

lemma stale_later:
  "\<not> cacheFresh uid w \<Longrightarrow> \<not> cacheFresh uid (w\<lparr>clock := clock w + int d\<rparr>)"
  by (auto simp: cacheFresh_def)

lemma polling_alone_never_returns:
  "\<not> cacheFresh uid w \<Longrightarrow> fetchInProgress w \<Longrightarrow> getUserById n env uid w = None"
proof (induction n arbitrary: w)
  case 0
  show ?case by simp
next
  case (Suc n)
  have "getUserById n env uid (w\<lparr>clock := clock w + int 100\<rparr>) = None"
    using Suc.prems by (intro Suc.IH stale_later) simp_all
  then show ?case
    using Suc.prems by (simp add: begin_retry)
qed

lemma save_frame:
  "cachedUsers (saveUserToStorage env u w) = cachedUsers w"
  "lastFetchTime (saveUserToStorage env u w) = lastFetchTime w"
  "fetchInProgress (saveUserToStorage env u w) = fetchInProgress w"
  "cacheDuration (saveUserToStorage env u w) = cacheDuration w"
  "clock (saveUserToStorage env u w) = clock w"
  "requests (saveUserToStorage env u w) = requests w"
  by (simp_all add: saveUserToStorage_def logger_error_def Let_def)

lemma save_items:
  "items (saveUserToStorage env u w) =
     (if setItemThrows env (''user_'' @ ident u) (stringify env u) then items w
      else (items w)(''user_'' @ ident u \<mapsto> stringify env u))"
  by (simp add: saveUserToStorage_def logger_error_def Let_def)

lemma load_frame:
  "cachedUsers (snd (getUserFromStorage env uid w)) = cachedUsers w"
  "lastFetchTime (snd (getUserFromStorage env uid w)) = lastFetchTime w"
  "fetchInProgress (snd (getUserFromStorage env uid w)) = fetchInProgress w"
  "cacheDuration (snd (getUserFromStorage env uid w)) = cacheDuration w"
  "clock (snd (getUserFromStorage env uid w)) = clock w"
  "requests (snd (getUserFromStorage env uid w)) = requests w"
  "items (snd (getUserFromStorage env uid w)) = items w"
  by (simp_all add: getUserFromStorage_def logger_error_def Let_def split: option.splits)

lemma resume_success:
  "getUserById_resume env uid now (Inr user) w =
     (Inr user,
      (saveUserToStorage env user
         (w\<lparr>cachedUsers := (cachedUsers w)(uid \<mapsto> user), lastFetchTime := now\<rparr>))
       \<lparr>fetchInProgress := False\<rparr>)"
  by (simp add: getUserById_resume_def Let_def)

lemma resume_failure:
  "getUserById_resume env uid now (Inl err) w =
     ((case fst (getUserFromStorage env uid (logger_error ''Failed to fetch user'' err w)) of
         Some u \<Rightarrow> Inr u
       | None \<Rightarrow> Inl (Failure (''Failed to fetch user with ID '' @ uid))),
      (snd (getUserFromStorage env uid (logger_error ''Failed to fetch user'' err w)))
       \<lparr>fetchInProgress := False\<rparr>)"
  by (simp add: getUserById_resume_def Let_def split: prod.splits option.splits)

lemma resume_frame:
  "requests (snd (getUserById_resume env uid now r w)) = requests w"
  "clock (snd (getUserById_resume env uid now r w)) = clock w"
  "cacheDuration (snd (getUserById_resume env uid now r w)) = cacheDuration w"
  "fetchInProgress (snd (getUserById_resume env uid now r w)) = False"
  by (cases r; simp add: resume_success resume_failure save_frame load_frame logger_error_def)+

lemma fetch_alone:
  "\<not> cacheFresh uid w \<Longrightarrow> \<not> fetchInProgress w \<Longrightarrow>
   getUserById (Suc n) env uid w =
     Some (getUserById_resume env uid (clock w)
             (outcome (apiClient env (GET (''/users/'' @ uid))))
             (w\<lparr>fetchInProgress := True,
                logged := logged w @ [Log ''Fetching user data'' (ForId uid)],
                requests := requests w @ [GET (''/users/'' @ uid)],
                clock := clock w + int (latency (apiClient env (GET (''/users/'' @ uid))))\<rparr>))"
  by (simp add: begin_fetch Let_def)

lemma hit_alone:
  "cacheFresh uid w \<Longrightarrow> cachedUsers w uid = Some u \<Longrightarrow>
   getUserById (Suc n) env uid w =
     Some (Inr u, logger_log ''Cache hit for user'' (ForId uid) w)"
  by (simp add: begin_hit)

lemma fetch_alone_requests:
  assumes "\<not> cacheFresh uid w" and "\<not> fetchInProgress w"
  shows "\<exists>r w'. getUserById (Suc n) env uid w = Some (r, w')
               \<and> requests w' = requests w @ [GET (''/users/'' @ uid)]"
proof -
  let ?w1 = "w\<lparr>fetchInProgress := True,
                logged := logged w @ [Log ''Fetching user data'' (ForId uid)],
                requests := requests w @ [GET (''/users/'' @ uid)],
                clock := clock w + int (latency (apiClient env (GET (''/users/'' @ uid))))\<rparr>"
  let ?out = "getUserById_resume env uid (clock w)
                (outcome (apiClient env (GET (''/users/'' @ uid)))) ?w1"
  have "getUserById (Suc n) env uid w = Some (fst ?out, snd ?out)"
    using fetch_alone [OF assms] by simp
  moreover have "requests (snd ?out) = requests w @ [GET (''/users/'' @ uid)]"
    by (simp add: resume_frame)
  ultimately show ?thesis by blast
qed

lemma load_found:
  "\<not> getItemThrows env (''user_'' @ uid) \<Longrightarrow> items w (''user_'' @ uid) = Some data \<Longrightarrow>
   data \<noteq> [] \<Longrightarrow> parse env data = Some su \<Longrightarrow>
   getUserFromStorage env uid w = (Some (rehydrate env su), w)"
  by (simp add: getUserFromStorage_def Let_def)

lemma load_absent:
  "getItemThrows env (''user_'' @ uid) \<or> items w (''user_'' @ uid) = None
   \<or> items w (''user_'' @ uid) = Some []
   \<or> (\<exists>data. items w (''user_'' @ uid) = Some data \<and> parse env data = None) \<Longrightarrow>
   fst (getUserFromStorage env uid w) = None"
  by (auto simp: getUserFromStorage_def Let_def split: option.splits)

lemma load_reads_items:
  "items w1 = items w2 \<Longrightarrow>
   fst (getUserFromStorage env uid w1) = fst (getUserFromStorage env uid w2)"
  by (simp add: getUserFromStorage_def Let_def split: option.splits)

declare getUserById.simps [simp del]

lemma fetch_alone_failure:
  assumes "\<not> cacheFresh uid w" and "\<not> fetchInProgress w"
    and "outcome (apiClient env (GET (''/users/'' @ uid))) = Inl err"
  shows "\<exists>w'. getUserById (Suc n) env uid w =
           Some ((case fst (getUserFromStorage env uid w) of
                    Some u \<Rightarrow> Inr u
                  | None \<Rightarrow> Inl (Failure (''Failed to fetch user with ID '' @ uid))), w')
         \<and> cachedUsers w' = cachedUsers w \<and> lastFetchTime w' = lastFetchTime w
         \<and> items w' = items w \<and> \<not> fetchInProgress w'"
proof -
  let ?w1 = "w\<lparr>fetchInProgress := True,
                logged := logged w @ [Log ''Fetching user data'' (ForId uid)],
                requests := requests w @ [GET (''/users/'' @ uid)],
                clock := clock w + int (latency (apiClient env (GET (''/users/'' @ uid))))\<rparr>"
  let ?w2 = "logger_error ''Failed to fetch user'' err ?w1"
  have run: "getUserById (Suc n) env uid w =
               Some (getUserById_resume env uid (clock w) (Inl err) ?w1)"
    using fetch_alone [OF assms(1,2), of n env] assms(3) by simp
  have same: "fst (getUserFromStorage env uid ?w2) = fst (getUserFromStorage env uid w)"
    by (rule load_reads_items) (simp add: logger_error_def)
  have frame: "cachedUsers (snd (getUserFromStorage env uid ?w2)) = cachedUsers w"
    "lastFetchTime (snd (getUserFromStorage env uid ?w2)) = lastFetchTime w"
    "items (snd (getUserFromStorage env uid ?w2)) = items w"
    by (simp_all add: load_frame logger_error_def)
  show ?thesis
    unfolding run resume_failure same using frame by simp
qed

lemma fetch_alone_success:
  assumes "\<not> cacheFresh uid w" and "\<not> fetchInProgress w"
    and "outcome (apiClient env (GET (''/users/'' @ uid))) = Inr user"
  shows "getUserById (Suc n) env uid w =
           Some (Inr user,
                 (saveUserToStorage env user
                    (w\<lparr>fetchInProgress := True,
                       logged := logged w @ [Log ''Fetching user data'' (ForId uid)],
                       requests := requests w @ [GET (''/users/'' @ uid)],
                       clock := clock w + int (latency (apiClient env (GET (''/users/'' @ uid)))),
                       cachedUsers := (cachedUsers w)(uid \<mapsto> user),
                       lastFetchTime := clock w\<rparr>))
                 \<lparr>fetchInProgress := False\<rparr>)"
  using fetch_alone [OF assms(1,2), of n env] assms(3)
  by (simp add: resume_success)

section \<open>Facts about \<open>updateUserPreferences\<close>\<close>




lemma update_never_returned:
  "getUserById n env uid w = None \<Longrightarrow> updateUserPreferences n env uid p w = None"
  by (simp add: updateUserPreferences_def)

lemma update_fetch_failed:
  "getUserById n env uid w = Some (Inl err, w1) \<Longrightarrow>
   updateUserPreferences n env uid p w =
     Some (Inl (Failure (''Failed to update preferences for user '' @ uid)),
           logger_error ''Failed to update preferences'' err w1)"
  by (simp add: updateUserPreferences_def update_after_fetch_def)

lemma update_posted:
  "getUserById n env uid w = Some (Inr fetched, w1) \<Longrightarrow>
   updateUserPreferences n env uid p w =
     Some (update_after_post env uid p (updatedPreferences fetched p)
             (outcome (apiClient env
                (POST (''/users/'' @ uid @ ''/preferences'') (updatedPreferences fetched p))))
             (w1\<lparr>requests := requests w1
                      @ [POST (''/users/'' @ uid @ ''/preferences'')
                           (updatedPreferences fetched p)],
                 clock := clock w1
                      + int (latency (apiClient env
                          (POST (''/users/'' @ uid @ ''/preferences'')
                             (updatedPreferences fetched p))))\<rparr>))"
  by (simp add: updateUserPreferences_def update_after_fetch_def Let_def)

lemma post_failed:
  "update_after_post env uid p up (Inl err) w =
     (Inl (Failure (''Failed to update preferences for user '' @ uid)),
      logger_error ''Failed to update preferences'' err w)"
  by (simp add: update_after_post_def)

lemma post_succeeded:
  "update_after_post env uid p up (Inr posted) w =
     (Inr (posted\<lparr>preferences := Some up\<rparr>),
      logger_log ''Updated user preferences'' (ForUpdate uid p)
        (saveUserToStorage env (posted\<lparr>preferences := Some up\<rparr>)
           (w\<lparr>cachedUsers := (cachedUsers w)(uid \<mapsto> posted\<lparr>preferences := Some up\<rparr>)\<rparr>)))"
  by (simp add: update_after_post_def Let_def)

lemma save_logged:
  "logged (saveUserToStorage env u w) =
     (if setItemThrows env (''user_'' @ ident u) (stringify env u)
      then logged w @ [LogError ''Failed to save user to storage'' StorageFailure]
      else logged w)"
  by (simp add: saveUserToStorage_def logger_error_def Let_def)

lemma hit_only:
  assumes "cacheFresh uid w" and "getUserById n env uid w = Some (r, w1)"
  shows "w1 = logger_log ''Cache hit for user'' (ForId uid) w"
proof (cases n)
  case 0
  then show ?thesis using assms(2) by (simp add: getUserById.simps)
next
  case (Suc m)
  obtain u where "cachedUsers w uid = Some u"
    using assms(1) by (auto simp: cacheFresh_def)
  from hit_alone [OF assms(1) this, of m env] assms(2) Suc show ?thesis
    by simp
qed

section \<open>What an operation returns does not depend on \<open>setItem\<close>\<close>

lemma resume_result:
  "fst (getUserById_resume env uid now r w) =
     (case r of
        Inr u \<Rightarrow> Inr u
      | Inl e \<Rightarrow>
          (case fst (getUserFromStorage env uid w) of
             Some u \<Rightarrow> Inr u
           | None \<Rightarrow> Inl (Failure (''Failed to fetch user with ID '' @ uid))))"
proof (cases r)
  case (Inl e)
  have "fst (getUserFromStorage env uid (logger_error ''Failed to fetch user'' e w))
          = fst (getUserFromStorage env uid w)"
    by (rule load_reads_items) (simp add: logger_error_def)
  then show ?thesis
    using Inl by (simp add: resume_failure)
next
  case (Inr u)
  then show ?thesis by (simp add: resume_success)
qed

lemma load_ignores_setItem:
  "getUserFromStorage (env\<lparr>setItemThrows := f\<rparr>) uid w = getUserFromStorage env uid w"
  by (simp add: getUserFromStorage_def rehydrate_def Let_def split: option.splits)

lemma fetch_result_same:
  "map_option fst (getUserById n (env\<lparr>setItemThrows := f\<rparr>) uid w)
     = map_option fst (getUserById n env uid w)"
proof (induction n arbitrary: w)
  case 0
  show ?case by (simp add: getUserById.simps)
next
  case (Suc n)
  obtain a w1 where b: "getUserById_begin uid w = (a, w1)"
    by (cases "getUserById_begin uid w")
  show ?case
  proof (cases a)
    case (Hit u)
    then show ?thesis using b by (simp add: getUserById.simps)
  next
    case (Retry d)
    then show ?thesis using b Suc.IH by (simp add: getUserById.simps)
  next
    case (Fetch url now)
    then show ?thesis
      using b by (simp add: getUserById.simps Let_def resume_result load_ignores_setItem
                   cong: sum.case_cong)
  qed
qed

lemma update_result:
  "map_option fst (updateUserPreferences n env uid p w) =
     map_option
       (\<lambda>fetched.
          case fetched of
            Inl e \<Rightarrow> Inl (Failure (''Failed to update preferences for user '' @ uid))
          | Inr u \<Rightarrow>
              (case outcome (apiClient env
                      (POST (''/users/'' @ uid @ ''/preferences'') (updatedPreferences u p))) of
                 Inl e \<Rightarrow> Inl (Failure (''Failed to update preferences for user '' @ uid))
               | Inr posted \<Rightarrow> Inr (posted\<lparr>preferences := Some (updatedPreferences u p)\<rparr>)))
       (map_option fst (getUserById n env uid w))"
proof (cases "getUserById n env uid w")
  case None
  then show ?thesis by (simp add: update_never_returned)
next
  case (Some a)
  obtain r w1 where a: "a = (r, w1)" by (cases a)
  show ?thesis
  proof (cases r)
    case (Inl e)
    then show ?thesis using Some a by (simp add: update_fetch_failed)
  next
    case (Inr u)
    then have got: "getUserById n env uid w = Some (Inr u, w1)"
      using Some a by simp
    show ?thesis
      unfolding update_posted [OF got] got
      by (cases "outcome (apiClient env
                      (POST (''/users/'' @ uid @ ''/preferences'') (updatedPreferences u p)))")
         (simp_all add: post_failed post_succeeded)
  qed
qed

lemma update_result_same:
  "map_option fst (updateUserPreferences n (env\<lparr>setItemThrows := f\<rparr>) uid p w)
     = map_option fst (updateUserPreferences n env uid p w)"
  by (simp add: update_result fetch_result_same cong: sum.case_cong)

section \<open>Facts about interleaved calls\<close>

lemma remove_task_count:
  assumes "at_index ts i = Some t"
  shows "length (filter P (remove_task i ts)) + (if P t then 1 else 0) = length (filter P ts)"
proof -
  have i: "i < length ts" and t: "ts ! i = t"
    using assms by (auto simp: at_index_def split: if_splits)
  have "ts = take i ts @ t # drop (Suc i) ts"
    using id_take_nth_drop [OF i] t by simp
  then have "filter P ts = filter P (take i ts) @ filter P [t] @ filter P (drop (Suc i) ts)"
    by (metis append_Cons append_Nil filter_append)
  then show ?thesis
    by (simp add: remove_task_def)
qed

lemma update_after_fetch_flag:
  "fetchInProgress (snd (update_after_fetch uid p r w)) = fetchInProgress w"
  by (cases r) (simp_all add: update_after_fetch_def logger_error_def Let_def)

lemma update_after_post_flag:
  "fetchInProgress (snd (update_after_post env uid p up r w)) = fetchInProgress w"
  by (cases r) (simp_all add: post_failed post_succeeded logger_error_def logger_log_def save_frame)

lemma deliver_flag:
  "fetchInProgress (world (deliver uid k r s)) = fetchInProgress (world s)"
proof (cases k)
  case Direct
  then show ?thesis by (simp add: deliver_def)
next
  case (FromUpdate p)
  obtain st w1 where u: "update_after_fetch uid p r (world s) = (st, w1)"
    by (cases "update_after_fetch uid p r (world s)")
  then have "fetchInProgress w1 = fetchInProgress (world s)"
    using update_after_fetch_flag [of uid p r "world s"] by simp
  then show ?thesis
    using FromUpdate u by (cases st) (simp_all add: deliver_def)
qed

lemma deliver_inFlight:
  "inFlight (deliver uid k r s) = inFlight s"
proof (cases k)
  case Direct
  then show ?thesis by (simp add: deliver_def inFlight_def)
next
  case (FromUpdate p)
  obtain st w1 where u: "update_after_fetch uid p r (world s) = (st, w1)"
    by (cases "update_after_fetch uid p r (world s)")
  show ?thesis
    using FromUpdate u by (cases st) (simp_all add: deliver_def inFlight_def isFetching_def)
qed

lemma deliver_flagMatches:
  "flagMatches (deliver uid k r s) = flagMatches s"
  by (simp add: flagMatches_def deliver_flag deliver_inFlight)

lemma attempt_call_flagMatches:
  assumes "flagMatches s"
  shows "flagMatches (attempt_call uid k s)"
proof (cases "cacheFresh uid (world s)")
  case True
  then obtain u where u: "cachedUsers (world s) uid = Some u"
    by (auto simp: cacheFresh_def)
  have "flagMatches (s\<lparr>world := logger_log ''Cache hit for user'' (ForId uid) (world s)\<rparr>)"
    using assms by (simp add: flagMatches_def inFlight_def logger_log_def)
  then show ?thesis
    by (simp add: attempt_call_def begin_hit [OF True u] deliver_flagMatches)
next
  case stale: False
  show ?thesis
  proof (cases "fetchInProgress (world s)")
    case True
    then show ?thesis
      using assms
      by (simp add: attempt_call_def begin_retry [OF stale True] flagMatches_def inFlight_def
            isFetching_def)
  next
    case False
    then show ?thesis
      using assms
      by (simp add: attempt_call_def begin_fetch [OF stale False] flagMatches_def inFlight_def
            isFetching_def)
  qed
qed

lemma step_flagMatches:
  assumes "flagMatches s" and "step env te s = Some s'"
  shows "flagMatches s'"
proof -
  let ?s = "s\<lparr>world := (world s)\<lparr>clock := fst te\<rparr>\<rparr>"
  have base: "flagMatches ?s"
    using assms(1) by (simp add: flagMatches_def inFlight_def)
  show ?thesis
  proof (cases "snd te")
    case (CallGet uid)
    then show ?thesis
      using assms(2) attempt_call_flagMatches [OF base] by (auto simp: step_def Let_def)
  next
    case (CallUpdate uid p)
    then show ?thesis
      using assms(2) attempt_call_flagMatches [OF base] by (auto simp: step_def Let_def)
  next
    case CallClear
    then show ?thesis
      using assms(2) base
      by (auto simp: step_def Let_def clearCache_def flagMatches_def inFlight_def)
  next
    case (TimerFires i)
    then obtain due uid k where
      t: "at_index (tasks s) i = Some (Timer due uid k)" and
      s': "s' = attempt_call uid k (?s\<lparr>tasks := remove_task i (tasks s)\<rparr>)"
      using assms(2)
      by (auto simp: step_def Let_def split: option.splits task.splits if_splits)
    have "length (filter isFetching (remove_task i (tasks s)))
            = length (filter isFetching (tasks s))"
      using remove_task_count [OF t, of isFetching] by (simp add: isFetching_def)
    then have "flagMatches (?s\<lparr>tasks := remove_task i (tasks s)\<rparr>)"
      using assms(1) by (simp add: flagMatches_def inFlight_def)
    then show ?thesis
      unfolding s' by (rule attempt_call_flagMatches)
  next
    case (GetSettles i r)
    then obtain uid now k where
      t: "at_index (tasks s) i = Some (Fetching uid now k)" and
      s': "s' = deliver uid k (fst (getUserById_resume env uid now r (world ?s)))
                  (?s\<lparr>world := snd (getUserById_resume env uid now r (world ?s)),
                      tasks := remove_task i (tasks s)\<rparr>)"
      using assms(2)
      by (auto simp: step_def Let_def split: option.splits task.splits prod.splits)
    have "length (filter isFetching (remove_task i (tasks s))) + 1
            = length (filter isFetching (tasks s))"
      using remove_task_count [OF t, of isFetching] by (simp add: isFetching_def)
    then have "length (filter isFetching (remove_task i (tasks s))) = 0"
      using assms(1) by (simp add: flagMatches_def inFlight_def split: if_splits)
    then have "flagMatches (?s\<lparr>world := snd (getUserById_resume env uid now r (world ?s)),
                      tasks := remove_task i (tasks s)\<rparr>)"
      by (simp add: flagMatches_def inFlight_def resume_frame)
    then show ?thesis
      unfolding s' by (simp add: deliver_flagMatches)
  next
    case (PostSettles i r)
    then obtain uid p up where
      t: "at_index (tasks s) i = Some (Posting uid p up)" and
      s': "s' = ?s\<lparr>world := snd (update_after_post env uid p up r (world ?s)),
                    tasks := remove_task i (tasks s),
                    returned := returned s
                      @ [(uid, fst (update_after_post env uid p up r (world ?s)))]\<rparr>"
      using assms(2)
      by (auto simp: step_def Let_def split: option.splits task.splits prod.splits)
    have "length (filter isFetching (remove_task i (tasks s)))
            = length (filter isFetching (tasks s))"
      using remove_task_count [OF t, of isFetching] by (simp add: isFetching_def)
    then show ?thesis
      unfolding s' using assms(1)
      by (simp add: flagMatches_def inFlight_def update_after_post_flag)
  qed
qed

lemma run_flagMatches:
  "flagMatches s \<Longrightarrow> run env evs s = Some s' \<Longrightarrow> flagMatches s'"
proof (induction evs arbitrary: s)
  case Nil
  then show ?case by simp
next
  case (Cons te evs)
  then show ?case
    by (auto split: option.splits dest: step_flagMatches)
qed

lemma idle_flagMatches: "idle s \<Longrightarrow> flagMatches s"
  by (simp add: idle_def flagMatches_def inFlight_def)

lemma alone_flag:
  assumes "\<not> fetchInProgress w" and "getUserById n env uid w = Some (res, w')"
  shows "\<not> fetchInProgress w'"
proof (cases n)
  case 0
  then show ?thesis using assms(2) by (simp add: getUserById.simps)
next
  case (Suc m)
  show ?thesis
  proof (cases "cacheFresh uid w")
    case True
    from hit_only [OF True assms(2)] show ?thesis
      using assms(1) by (simp add: logger_log_def)
  next
    case False
    from fetch_alone [OF False assms(1), of m env] assms(2) Suc
    have "w' = snd (getUserById_resume env uid (clock w)
             (outcome (apiClient env (GET (''/users/'' @ uid))))
             (w\<lparr>fetchInProgress := True,
                logged := logged w @ [Log ''Fetching user data'' (ForId uid)],
                requests := requests w @ [GET (''/users/'' @ uid)],
                clock := clock w + int (latency (apiClient env (GET (''/users/'' @ uid))))\<rparr>))"
      by simp
    then show ?thesis
      by (simp add: resume_frame)
  qed
qed

lemma begin_sets_flag:
  "getUserById_begin uid w = (Fetch url now, w1) \<Longrightarrow> \<not> fetchInProgress w \<and> fetchInProgress w1"
  by (auto simp: getUserById_begin_def logger_log_def Let_def split: if_splits)

section \<open>The claims\<close>

text \<open>
  C1. \<open>getUserById\<close> returns the cached user of the identifier without a call on the
  remote client exactly when the cache holds an entry for the identifier and the current
  time less \<open>lastFetchTime\<close> is strictly below \<open>cacheDuration\<close>: so for one attempt
  (the cache check of \<open>getUserById_begin\<close>), and so for a whole call run alone, for
  any number of attempts allowed. When the check fails and no fetch is in flight, the
  call issues \<open>GET /users/{id}\<close>.
\<close>

theorem C1_cache_check:
  "(cacheFresh uid w \<longleftrightarrow>
      (\<exists>u w'. cachedUsers w uid = Some u
             \<and> getUserById_begin uid w = (Hit u, w')
             \<and> requests w' = requests w))
   \<and> (cacheFresh uid w \<longleftrightarrow>
      (\<exists>u w'. cachedUsers w uid = Some u
             \<and> getUserById (Suc n) env uid w = Some (Inr u, w')
             \<and> requests w' = requests w))
   \<and> (\<not> cacheFresh uid w \<and> \<not> fetchInProgress w \<longrightarrow>
        (\<exists>r w'. getUserById (Suc n) env uid w = Some (r, w')
               \<and> requests w' = requests w @ [GET (''/users/'' @ uid)]))"
proof (intro conjI iffI impI)
  assume fresh: "cacheFresh uid w"
  then obtain u where u: "cachedUsers w uid = Some u"
    by (auto simp: cacheFresh_def)
  show "\<exists>u w'. cachedUsers w uid = Some u
             \<and> getUserById_begin uid w = (Hit u, w')
             \<and> requests w' = requests w"
    using begin_hit [OF fresh u] u by (simp add: logger_log_def)
  show "\<exists>u w'. cachedUsers w uid = Some u
             \<and> getUserById (Suc n) env uid w = Some (Inr u, w')
             \<and> requests w' = requests w"
    using hit_alone [OF fresh u] u by (simp add: logger_log_def)
next
  assume "\<exists>u w'. cachedUsers w uid = Some u
             \<and> getUserById_begin uid w = (Hit u, w')
             \<and> requests w' = requests w"
  then show "cacheFresh uid w"
    by (cases "fetchInProgress w"; cases "cacheFresh uid w")
       (auto simp: begin_retry begin_fetch)
next
  assume ret: "\<exists>u w'. cachedUsers w uid = Some u
             \<and> getUserById (Suc n) env uid w = Some (Inr u, w')
             \<and> requests w' = requests w"
  show "cacheFresh uid w"
  proof (rule ccontr)
    assume stale: "\<not> cacheFresh uid w"
    show False
    proof (cases "fetchInProgress w")
      case True
      then show False
        using ret polling_alone_never_returns [OF stale True] by auto
    next
      case False
      then show False
        using ret fetch_alone_requests [OF stale False, of n env] by auto
    qed
  qed
next
  assume "\<not> cacheFresh uid w \<and> \<not> fetchInProgress w"
  then show "\<exists>r w'. getUserById (Suc n) env uid w = Some (r, w')
               \<and> requests w' = requests w @ [GET (''/users/'' @ uid)]"
    using fetch_alone_requests by blast
qed

text \<open>
  An instance of C1: a hit on \<open>u1\<close> one second after the fetch, and a GET for \<open>u1\<close>
  sixty seconds after it.
\<close>

theorem C1_cache_check_witness:
  "cacheFresh ''u1'' fresh_world
   \<and> (\<exists>u w'. cachedUsers fresh_world ''u1'' = Some u
            \<and> getUserById (Suc 0) (demo_env False) ''u1'' fresh_world = Some (Inr u, w')
            \<and> requests w' = requests fresh_world)
   \<and> \<not> cacheFresh ''u1'' stale_world \<and> \<not> fetchInProgress stale_world
   \<and> (\<exists>r w'. getUserById (Suc 0) (demo_env False) ''u1'' stale_world = Some (r, w')
            \<and> requests w' = requests stale_world @ [GET ''/users/u1''])"
proof -
  have fresh: "cacheFresh ''u1'' fresh_world"
    by (simp add: cacheFresh_def fresh_world_def new_world_def)
  have stale: "\<not> cacheFresh ''u1'' stale_world"
    by (simp add: cacheFresh_def stale_world_def fresh_world_def new_world_def)
  have idle: "\<not> fetchInProgress stale_world"
    by (simp add: stale_world_def fresh_world_def new_world_def)
  have hit: "\<exists>u w'. cachedUsers fresh_world ''u1'' = Some u
            \<and> getUserById (Suc 0) (demo_env False) ''u1'' fresh_world = Some (Inr u, w')
            \<and> requests w' = requests fresh_world"
    using C1_cache_check [of "''u1''" fresh_world 0 "demo_env False"] fresh by blast
  have miss: "\<exists>r w'. getUserById (Suc 0) (demo_env False) ''u1'' stale_world = Some (r, w')
            \<and> requests w' = requests stale_world @ [GET (''/users/'' @ ''u1'')]"
    using C1_cache_check [of "''u1''" stale_world 0 "demo_env False"] stale idle by blast
  from fresh hit stale idle miss show ?thesis
    by simp
qed

text \<open>
  C2. Let the cache check of \<open>getUserById\<close> fail, no fetch be in flight, and the GET
  fail. If the storage's \<open>getItem\<close> does not throw and holds under \<open>user_{id}\<close> a
  non-empty string that \<open>JSON.parse\<close> accepts, the call resolves with the parsed user,
  whose stored \<open>lastLogin\<close> string (when present and not empty) has become a \<open>Date\<close>,
  and the cache is as before. If \<open>getItem\<close> throws, or holds nothing or the empty
  string under that key, or \<open>JSON.parse\<close> throws, the call fails with
  \<open>Failed to fetch user with ID {id}\<close>, and the cache is as before.
\<close>

theorem C2_storage_fallback:
  assumes "\<not> cacheFresh uid w" and "\<not> fetchInProgress w"
    and "outcome (apiClient env (GET (''/users/'' @ uid))) = Inl err"
  shows "(\<not> getItemThrows env (''user_'' @ uid) \<and> items w (''user_'' @ uid) = Some data
            \<and> data \<noteq> [] \<and> parse env data = Some su \<longrightarrow>
          (\<exists>w'. getUserById (Suc n) env uid w =
                   Some (Inr \<lparr>ident = s_ident su, name = s_name su, email = s_email su,
                              lastLogin =
                                (case s_lastLogin su of
                                   None \<Rightarrow> None
                                 | Some str \<Rightarrow>
                                     if str = [] then None else Some (newDate env str)),
                              preferences = s_preferences su\<rparr>, w')
                \<and> cachedUsers w' = cachedUsers w))
       \<and> (getItemThrows env (''user_'' @ uid) \<or> items w (''user_'' @ uid) = None
            \<or> items w (''user_'' @ uid) = Some []
            \<or> (\<exists>d. items w (''user_'' @ uid) = Some d \<and> parse env d = None) \<longrightarrow>
          (\<exists>w'. getUserById (Suc n) env uid w =
                   Some (Inl (Failure (''Failed to fetch user with ID '' @ uid)), w')
                \<and> cachedUsers w' = cachedUsers w))"
proof (intro conjI impI)
  assume "\<not> getItemThrows env (''user_'' @ uid) \<and> items w (''user_'' @ uid) = Some data
            \<and> data \<noteq> [] \<and> parse env data = Some su"
  then have "fst (getUserFromStorage env uid w) = Some (rehydrate env su)"
    by (simp add: load_found)
  then show "\<exists>w'. getUserById (Suc n) env uid w =
                   Some (Inr \<lparr>ident = s_ident su, name = s_name su, email = s_email su,
                              lastLogin =
                                (case s_lastLogin su of
                                   None \<Rightarrow> None
                                 | Some str \<Rightarrow>
                                     if str = [] then None else Some (newDate env str)),
                              preferences = s_preferences su\<rparr>, w')
                \<and> cachedUsers w' = cachedUsers w"
    using fetch_alone_failure [OF assms, of n] by (auto simp: rehydrate_def)
next
  assume "getItemThrows env (''user_'' @ uid) \<or> items w (''user_'' @ uid) = None
            \<or> items w (''user_'' @ uid) = Some []
            \<or> (\<exists>d. items w (''user_'' @ uid) = Some d \<and> parse env d = None)"
  then have "fst (getUserFromStorage env uid w) = None"
    by (rule load_absent)
  then show "\<exists>w'. getUserById (Suc n) env uid w =
                   Some (Inl (Failure (''Failed to fetch user with ID '' @ uid)), w')
                \<and> cachedUsers w' = cachedUsers w"
    using fetch_alone_failure [OF assms, of n] by auto
qed

text \<open>
  An instance of C2: the remote client does not know \<open>u2\<close> and the storage holds it,
  with a last login that becomes the date of 500 ms; it knows neither \<open>u4\<close>, and the
  storage holds nothing for it.
\<close>

theorem C2_storage_fallback_witness:
  "(\<exists>w'. getUserById (Suc 0) (demo_env False) ''u2'' new_world =
            Some (Inr \<lparr>ident = ''u2'', name = ''Ann'', email = ''ann@nasa.gov'',
                       lastLogin = Some (ValidDate 500), preferences = None\<rparr>, w')
         \<and> cachedUsers w' = cachedUsers new_world)
   \<and> (\<exists>w'. getUserById (Suc 0) (demo_env False) ''u4'' new_world =
            Some (Inl (Failure ''Failed to fetch user with ID u4''), w')
         \<and> cachedUsers w' = cachedUsers new_world)"
proof -
  have stale: "\<not> cacheFresh uid new_world" for uid
    by (simp add: cacheFresh_def new_world_def)
  have idle: "\<not> fetchInProgress new_world"
    by (simp add: new_world_def)
  have f2: "outcome (apiClient (demo_env False) (GET (''/users/'' @ ''u2'')))
              = Inl (RequestFailed ''HTTP error 404'')"
    by (simp add: demo_env_def demo_api_def)
  have f4: "outcome (apiClient (demo_env False) (GET (''/users/'' @ ''u4'')))
              = Inl (RequestFailed ''HTTP error 404'')"
    by (simp add: demo_env_def demo_api_def)
  have held: "\<not> getItemThrows (demo_env False) (''user_'' @ ''u2'')
                \<and> items new_world (''user_'' @ ''u2'') = Some ''{u2}''
                \<and> ''{u2}'' \<noteq> [] \<and> parse (demo_env False) ''{u2}'' = Some demo_stored"
    by (simp add: demo_env_def new_world_def)
  have absent: "items new_world (''user_'' @ ''u4'') = None"
    by (simp add: new_world_def)
  have dated: "newDate (demo_env False) ''1970-01-01T00:00:00.500Z'' = ValidDate 500"
    by (simp add: demo_env_def)
  have a: "\<exists>w'. getUserById (Suc 0) (demo_env False) ''u2'' new_world =
            Some (Inr \<lparr>ident = ''u2'', name = ''Ann'', email = ''ann@nasa.gov'',
                       lastLogin = Some (ValidDate 500), preferences = None\<rparr>, w')
         \<and> cachedUsers w' = cachedUsers new_world"
    using C2_storage_fallback [OF stale idle f2, of "''{u2}''" demo_stored 0] held dated
    by (simp add: demo_stored_def)
  have b: "\<exists>w'. getUserById (Suc 0) (demo_env False) ''u4'' new_world =
            Some (Inl (Failure ''Failed to fetch user with ID u4''), w')
         \<and> cachedUsers w' = cachedUsers new_world"
    using C2_storage_fallback [OF stale idle f4, of _ _ 0] absent
    by simp
  from a b show ?thesis ..
qed

text \<open>
  C3. An attempt of \<open>getUserById\<close> that misses the cache while the in-flight flag is set
  issues no request and changes nothing: it arms a timer of 100 ms, and when the timer
  fires (no earlier than it is due) the whole operation is attempted again from the
  cache check; a call run alone so polls with the clock 100 ms further each time. And
  in every interleaving of calls of \<open>getUserById\<close>, \<open>updateUserPreferences\<close> and
  \<open>clearCache\<close> from a service with the flag clear and nothing suspended, at most
  one GET is in flight, whatever the identifiers.
\<close>

theorem C3_serialised_fetches:
  "(fetchInProgress w \<and> \<not> cacheFresh uid w \<longrightarrow>
      getUserById_begin uid w = (Retry 100, w)
      \<and> getUserById (Suc n) env uid w = getUserById n env uid (w\<lparr>clock := clock w + 100\<rparr>))
   \<and> (fetchInProgress (world s) \<and> \<not> cacheFresh uid (world s) \<longrightarrow>
      attempt_call uid k s = s\<lparr>tasks := tasks s @ [Timer (clock (world s) + 100) uid k]\<rparr>)
   \<and> (at_index (tasks s) i = Some (Timer due uid k) \<longrightarrow>
      step env (t, TimerFires i) s =
        (if due \<le> t
         then Some (attempt_call uid k
                      (s\<lparr>world := (world s)\<lparr>clock := t\<rparr>, tasks := remove_task i (tasks s)\<rparr>))
         else None))
   \<and> (idle s0 \<and> run env evs s0 = Some s1 \<longrightarrow> inFlight s1 \<le> 1)"
proof (intro conjI impI)
  assume h: "fetchInProgress w \<and> \<not> cacheFresh uid w"
  then show "getUserById_begin uid w = (Retry 100, w)"
    by (simp add: begin_retry)
  then show "getUserById (Suc n) env uid w = getUserById n env uid (w\<lparr>clock := clock w + 100\<rparr>)"
    by (simp add: getUserById.simps)
next
  assume "fetchInProgress (world s) \<and> \<not> cacheFresh uid (world s)"
  then show "attempt_call uid k s = s\<lparr>tasks := tasks s @ [Timer (clock (world s) + 100) uid k]\<rparr>"
    by (simp add: attempt_call_def begin_retry)
next
  assume "at_index (tasks s) i = Some (Timer due uid k)"
  then show "step env (t, TimerFires i) s =
        (if due \<le> t
         then Some (attempt_call uid k
                      (s\<lparr>world := (world s)\<lparr>clock := t\<rparr>, tasks := remove_task i (tasks s)\<rparr>))
         else None)"
    by (simp add: step_def Let_def)
next
  assume "idle s0 \<and> run env evs s0 = Some s1"
  then have "flagMatches s1"
    using run_flagMatches [of s0 env evs s1] idle_flagMatches [of s0] by simp
  then show "inFlight s1 \<le> 1"
    by (simp add: flagMatches_def)
qed

text \<open>
  An instance of C3: \<open>u2\<close> is requested while the GET for \<open>u1\<close> is in flight; the
  second call has issued no request and waits on a timer due at 1110.
\<close>

theorem C3_serialised_fetches_witness:
  "idle start_sys \<and> run (demo_env False) two_calls start_sys = Some waiting_sys
   \<and> inFlight waiting_sys \<le> 1
   \<and> requests (world waiting_sys) = [GET ''/users/u1'']
   \<and> fetchInProgress (world waiting_sys) \<and> \<not> cacheFresh ''u2'' (world waiting_sys)
   \<and> getUserById_begin ''u2'' (world waiting_sys) = (Retry 100, world waiting_sys)"
proof -
  have i: "idle start_sys"
    by (simp add: idle_def start_sys_def new_world_def)
  have r: "run (demo_env False) two_calls start_sys = Some waiting_sys"
    by (simp add: two_calls_def start_sys_def waiting_sys_def new_world_def step_def
          attempt_call_def getUserById_begin_def logger_log_def Let_def)
  have f: "fetchInProgress (world waiting_sys)" "\<not> cacheFresh ''u2'' (world waiting_sys)"
    "requests (world waiting_sys) = [GET ''/users/u1'']"
    by (simp_all add: waiting_sys_def cacheFresh_def new_world_def)
  from C3_serialised_fetches
         [where ?s0.0 = start_sys and env = "demo_env False" and evs = two_calls
            and ?s1.0 = waiting_sys and w = "world waiting_sys" and uid = "''u2''"]
       i r f
  show ?thesis
    by blast
qed

text \<open>
  C4 (as amended). Let the cache check fail, no fetch be in flight, and the GET succeed.
  The call returns the fetched user, stores it in the cache under the identifier, sets
  \<open>lastFetchTime\<close> to the time read when the attempt began (before the request was
  issued, not when it settled), and writes the user's JSON to the storage under
  \<open>user_{user.id}\<close> unless \<open>setItem\<close> throws.
\<close>

theorem C4_fetch_success:
  assumes "\<not> cacheFresh uid w" and "\<not> fetchInProgress w"
    and "apiClient env (GET (''/users/'' @ uid)) = r" and "outcome r = Inr user"
  shows "\<exists>w'. getUserById (Suc n) env uid w = Some (Inr user, w')
           \<and> cachedUsers w' = (cachedUsers w)(uid \<mapsto> user)
           \<and> lastFetchTime w' = clock w
           \<and> clock w' = clock w + int (latency r)
           \<and> items w' =
               (if setItemThrows env (''user_'' @ ident user) (stringify env user)
                then items w
                else (items w)(''user_'' @ ident user \<mapsto> stringify env user))
           \<and> \<not> fetchInProgress w'"
proof -
  have "outcome (apiClient env (GET (''/users/'' @ uid))) = Inr user"
    using assms(3,4) by simp
  from fetch_alone_success [OF assms(1,2) this, of n] show ?thesis
    using assms(3) by (simp add: save_frame save_items)
qed

text \<open>
  An instance of C4: the fetch of \<open>u1\<close> begins at time 1000 and settles at 1500.
\<close>

theorem C4_fetch_success_witness:
  "\<exists>w'. getUserById (Suc 0) (demo_env False) ''u1'' new_world = Some (Inr demo_user, w')
      \<and> cachedUsers w' = (cachedUsers new_world)(''u1'' \<mapsto> demo_user)
      \<and> lastFetchTime w' = 1000
      \<and> clock w' = 1500
      \<and> items w' = (items new_world)(''user_u1'' \<mapsto> ''{u1}'')
      \<and> \<not> fetchInProgress w'"
proof -
  have stale: "\<not> cacheFresh ''u1'' new_world"
    by (simp add: cacheFresh_def new_world_def)
  have idle: "\<not> fetchInProgress new_world"
    by (simp add: new_world_def)
  have r: "apiClient (demo_env False) (GET (''/users/'' @ ''u1''))
             = \<lparr>latency = 500, outcome = Inr demo_user\<rparr>"
    by (simp add: demo_env_def demo_api_def)
  have ok: "outcome \<lparr>latency = 500, outcome = Inr demo_user\<rparr> = Inr demo_user"
    by simp
  have env: "\<not> setItemThrows (demo_env False) k v"
            "stringify (demo_env False) demo_user = ''{u1}''" for k v
    by (simp_all add: demo_env_def demo_user_def)
  have "ident demo_user = ''u1''" "clock new_world = 1000"
    by (simp_all add: demo_user_def new_world_def)
  with C4_fetch_success [OF stale idle r ok, of 0] env show ?thesis
    by simp
qed

text \<open>
  C4 as first stated fails: the freshness clock is not the time at which the fetch
  completed. The fetch of \<open>u1\<close> begins at 1000 and completes at 1500, and leaves
  \<open>lastFetchTime = 1000\<close>.
\<close>

theorem C4_counterexample:
  "getUserById (Suc 0) (demo_env False) ''u1'' new_world = Some (Inr demo_user, fetched_world)
   \<and> clock fetched_world = 1500
   \<and> lastFetchTime fetched_world = 1000
   \<and> lastFetchTime fetched_world \<noteq> clock fetched_world"
  by (simp add: getUserById.simps getUserById_begin_def getUserById_resume_def
        saveUserToStorage_def
        logger_log_def demo_env_def demo_api_def demo_user_def new_world_def
        fetched_world_def Let_def)

text \<open>
  C5. The \<open>finally\<close> block: an attempt that reaches the fetch sets the flag, and when
  its GET has settled the flag is clear, whether the GET succeeded, the storage served
  the user, or the call failed. A call run alone from a clear flag returns with the flag
  clear. And in every interleaving of calls from a service with the flag clear and
  nothing suspended, the flag is set exactly when a GET is in flight: it is clear
  whenever none is.
\<close>

theorem C5_flag_released:
  "\<not> fetchInProgress (snd (getUserById_resume env uid now r w))
   \<and> (getUserById_begin uid w = (Fetch url now, w1) \<longrightarrow>
        \<not> fetchInProgress w \<and> fetchInProgress w1)
   \<and> (\<not> fetchInProgress w \<and> getUserById n env uid w = Some (res, w') \<longrightarrow>
        \<not> fetchInProgress w')
   \<and> (idle s0 \<and> run env evs s0 = Some s \<longrightarrow>
        (fetchInProgress (world s) \<longleftrightarrow> inFlight s = 1)
        \<and> (inFlight s = 0 \<longrightarrow> \<not> fetchInProgress (world s)))"
proof (intro conjI impI)
  show "\<not> fetchInProgress (snd (getUserById_resume env uid now r w))"
    by (simp add: resume_frame)
next
  assume "getUserById_begin uid w = (Fetch url now, w1)"
  then show "\<not> fetchInProgress w" "fetchInProgress w1"
    using begin_sets_flag by blast+
next
  assume "\<not> fetchInProgress w \<and> getUserById n env uid w = Some (res, w')"
  then show "\<not> fetchInProgress w'"
    using alone_flag by blast
next
  assume h: "idle s0 \<and> run env evs s0 = Some s"
  then have m: "flagMatches s"
    using run_flagMatches [of s0 env evs s] idle_flagMatches [of s0] by simp
  then show "fetchInProgress (world s) \<longleftrightarrow> inFlight s = 1"
    by (simp add: flagMatches_def)
  assume "inFlight s = 0"
  then show "\<not> fetchInProgress (world s)"
    using m by (simp add: flagMatches_def split: if_splits)
qed

text \<open>
  An instance of C5: the two calls of the instance of C3 have both returned, the first
  with the fetched user and the second with the stored one, and the flag is clear.
\<close>

theorem C5_flag_released_witness:
  "idle start_sys \<and> run (demo_env False) two_calls_settled start_sys = Some quiet_sys
   \<and> inFlight quiet_sys = 0
   \<and> \<not> fetchInProgress (world quiet_sys)
   \<and> \<not> fetchInProgress new_world
   \<and> getUserById (Suc 0) (demo_env False) ''u4'' new_world
       = Some (Inl (Failure ''Failed to fetch user with ID u4''), failed_world)
   \<and> \<not> fetchInProgress failed_world"
proof -
  have i: "idle start_sys"
    by (simp add: idle_def start_sys_def new_world_def)
  have r: "run (demo_env False) two_calls_settled start_sys = Some quiet_sys"
    by (simp add: two_calls_settled_def start_sys_def quiet_sys_def new_world_def step_def
          attempt_call_def deliver_def at_index_def remove_task_def
          getUserById_begin_def getUserById_resume_def getUserFromStorage_def
          saveUserToStorage_def logger_log_def logger_error_def
          demo_env_def demo_user_def Let_def)
  have n: "inFlight quiet_sys = 0"
    by (simp add: inFlight_def quiet_sys_def)
  have c: "\<not> fetchInProgress new_world"
    by (simp add: new_world_def)
  have f4: "getUserById (Suc 0) (demo_env False) ''u4'' new_world
     = Some (Inl (Failure ''Failed to fetch user with ID u4''), failed_world)"
    by (simp add: getUserById.simps getUserById_begin_def getUserById_resume_def
          getUserFromStorage_def logger_log_def logger_error_def demo_env_def demo_api_def
          new_world_def failed_world_def Let_def)
  from C5_flag_released
         [where ?s0.0 = start_sys and env = "demo_env False" and evs = two_calls_settled
            and s = quiet_sys and w = new_world and n = "Suc 0" and uid = "''u4''"
            and res = "Inl (Failure ''Failed to fetch user with ID u4'')"
            and w' = failed_world]
       i r n c f4
  show ?thesis
    by blast
qed




text \<open>
  C7. If the \<open>getUserById\<close> step of \<open>updateUserPreferences\<close> fails, or the POST fails,
  the operation fails with the one error \<open>Failed to update preferences for user {id}\<close>.
  When it is the POST that fails, the cache, the storage and the freshness clock are
  exactly as \<open>getUserById\<close> left them: only the request and the logged error are added;
  and when \<open>getUserById\<close> was a cache hit, the cache and the storage are as they were
  before the operation.
\<close>

theorem C7_update_failure:
  "(getUserById n env uid w = Some (Inl err, w1) \<longrightarrow>
      (\<exists>w'. updateUserPreferences n env uid p w =
               Some (Inl (Failure (''Failed to update preferences for user '' @ uid)), w')))
   \<and> (getUserById n env uid w = Some (Inr fetched, w1)
       \<and> outcome (apiClient env
            (POST (''/users/'' @ uid @ ''/preferences'') (updatedPreferences fetched p)))
          = Inl err \<longrightarrow>
      (\<exists>w'. updateUserPreferences n env uid p w =
               Some (Inl (Failure (''Failed to update preferences for user '' @ uid)), w')
           \<and> cachedUsers w' = cachedUsers w1 \<and> items w' = items w1
           \<and> lastFetchTime w' = lastFetchTime w1
           \<and> fetchInProgress w' = fetchInProgress w1
           \<and> logged w' = logged w1 @ [LogError ''Failed to update preferences'' err]
           \<and> (cacheFresh uid w \<longrightarrow> cachedUsers w' = cachedUsers w \<and> items w' = items w)))"
proof (intro conjI impI)
  assume "getUserById n env uid w = Some (Inl err, w1)"
  then show "\<exists>w'. updateUserPreferences n env uid p w =
               Some (Inl (Failure (''Failed to update preferences for user '' @ uid)), w')"
    by (simp add: update_fetch_failed)
next
  assume h: "getUserById n env uid w = Some (Inr fetched, w1)
       \<and> outcome (apiClient env
            (POST (''/users/'' @ uid @ ''/preferences'') (updatedPreferences fetched p)))
          = Inl err"
  then have got: "getUserById n env uid w = Some (Inr fetched, w1)"
    by simp
  have hit: "cachedUsers w1 = cachedUsers w \<and> items w1 = items w" if "cacheFresh uid w"
    using hit_only [OF that got] by (simp add: logger_log_def)
  show "\<exists>w'. updateUserPreferences n env uid p w =
               Some (Inl (Failure (''Failed to update preferences for user '' @ uid)), w')
           \<and> cachedUsers w' = cachedUsers w1 \<and> items w' = items w1
           \<and> lastFetchTime w' = lastFetchTime w1
           \<and> fetchInProgress w' = fetchInProgress w1
           \<and> logged w' = logged w1 @ [LogError ''Failed to update preferences'' err]
           \<and> (cacheFresh uid w \<longrightarrow> cachedUsers w' = cachedUsers w \<and> items w' = items w)"
    using update_posted [OF got, of p] h hit
    by (simp add: post_failed logger_error_def)
qed

text \<open>
  An instance of C7: the update of \<open>u4\<close>, which the remote client does not know and
  the storage does not hold, and the update of \<open>u5\<close>, which the cache holds and whose
  POST the remote client refuses.
\<close>

theorem C7_update_failure_witness:
  "getUserById (Suc 0) (demo_env False) ''u4'' new_world
     = Some (Inl (Failure ''Failed to fetch user with ID u4''), failed_world)
   \<and> (\<exists>w'. updateUserPreferences (Suc 0) (demo_env False) ''u4'' french new_world =
            Some (Inl (Failure ''Failed to update preferences for user u4''), w'))
   \<and> cacheFresh ''u5'' fresh_world5
   \<and> getUserById (Suc 0) (demo_env False) ''u5'' fresh_world5
       = Some (Inr demo_user, logger_log ''Cache hit for user'' (ForId ''u5'') fresh_world5)
   \<and> (\<exists>w'. updateUserPreferences (Suc 0) (demo_env False) ''u5'' french fresh_world5 =
            Some (Inl (Failure ''Failed to update preferences for user u5''), w')
          \<and> cachedUsers w' = cachedUsers fresh_world5 \<and> items w' = items fresh_world5)"
proof -
  have f4: "getUserById (Suc 0) (demo_env False) ''u4'' new_world
     = Some (Inl (Failure ''Failed to fetch user with ID u4''), failed_world)"
    by (simp add: getUserById.simps getUserById_begin_def getUserById_resume_def
          getUserFromStorage_def logger_log_def logger_error_def demo_env_def demo_api_def
          new_world_def failed_world_def Let_def)
  have fresh: "cacheFresh ''u5'' fresh_world5"
    by (simp add: cacheFresh_def fresh_world5_def fresh_world_def new_world_def)
  have h5: "getUserById (Suc 0) (demo_env False) ''u5'' fresh_world5
       = Some (Inr demo_user, logger_log ''Cache hit for user'' (ForId ''u5'') fresh_world5)"
    by (rule hit_alone [OF fresh]) (simp add: fresh_world5_def)
  have refused: "outcome (apiClient (demo_env False)
            (POST (''/users/'' @ ''u5'' @ ''/preferences'') (updatedPreferences demo_user french)))
          = Inl (RequestFailed ''HTTP error 500'')"
    by (simp add: demo_env_def demo_api_def)
  have a: "\<exists>w'. updateUserPreferences (Suc 0) (demo_env False) ''u4'' french new_world =
            Some (Inl (Failure ''Failed to update preferences for user u4''), w')"
    using C7_update_failure [of "Suc 0" "demo_env False" "''u4''" new_world _ failed_world french]
      f4 by simp
  have b: "\<exists>w'. updateUserPreferences (Suc 0) (demo_env False) ''u5'' french fresh_world5 =
            Some (Inl (Failure ''Failed to update preferences for user u5''), w')
          \<and> cachedUsers w' = cachedUsers fresh_world5 \<and> items w' = items fresh_world5"
    using C7_update_failure [of "Suc 0" "demo_env False" "''u5''" fresh_world5
        "RequestFailed ''HTTP error 500''" _ french demo_user] h5 refused fresh
    by auto
  from f4 a fresh h5 b show ?thesis
    by simp
qed

text \<open>
  C8. When the GET of \<open>getUserById\<close> succeeds and \<open>setItem\<close> throws, the call still
  resolves with the fetched user and the cache holds it; the storage is unchanged and
  the error is logged. When the POST of \<open>updateUserPreferences\<close> succeeds and
  \<open>setItem\<close> throws, the operation still resolves with the updated user and the cache
  holds it; the storage is as \<open>getUserById\<close> left it and the error is logged. And for
  both operations, whether it returns and what it returns is the same however
  \<open>setItem\<close> behaves.
\<close>

theorem C8_persistence_failure_swallowed:
  "(\<not> cacheFresh uid w \<and> \<not> fetchInProgress w
      \<and> outcome (apiClient env (GET (''/users/'' @ uid))) = Inr user
      \<and> setItemThrows env (''user_'' @ ident user) (stringify env user) \<longrightarrow>
      (\<exists>w'. getUserById (Suc n) env uid w = Some (Inr user, w')
           \<and> cachedUsers w' uid = Some user
           \<and> items w' = items w
           \<and> logged w' = logged w @ [Log ''Fetching user data'' (ForId uid),
                                      LogError ''Failed to save user to storage'' StorageFailure]))
   \<and> (getUserById n env uid w = Some (Inr fetched, w1)
       \<and> outcome (apiClient env
            (POST (''/users/'' @ uid @ ''/preferences'') (updatedPreferences fetched p)))
          = Inr posted
       \<and> setItemThrows env (''user_'' @ ident posted)
            (stringify env (posted\<lparr>preferences := Some (updatedPreferences fetched p)\<rparr>)) \<longrightarrow>
      (\<exists>w'. updateUserPreferences n env uid p w =
               Some (Inr (posted\<lparr>preferences := Some (updatedPreferences fetched p)\<rparr>), w')
           \<and> cachedUsers w' uid
               = Some (posted\<lparr>preferences := Some (updatedPreferences fetched p)\<rparr>)
           \<and> items w' = items w1
           \<and> logged w' = logged w1 @ [LogError ''Failed to save user to storage'' StorageFailure,
                                       Log ''Updated user preferences'' (ForUpdate uid p)]))
   \<and> map_option fst (getUserById n (env\<lparr>setItemThrows := f\<rparr>) uid w)
       = map_option fst (getUserById n env uid w)
   \<and> map_option fst (updateUserPreferences n (env\<lparr>setItemThrows := f\<rparr>) uid p w)
       = map_option fst (updateUserPreferences n env uid p w)"
proof (intro conjI impI)
  assume h: "\<not> cacheFresh uid w \<and> \<not> fetchInProgress w
      \<and> outcome (apiClient env (GET (''/users/'' @ uid))) = Inr user
      \<and> setItemThrows env (''user_'' @ ident user) (stringify env user)"
  then have "getUserById (Suc n) env uid w =
           Some (Inr user,
                 (saveUserToStorage env user
                    (w\<lparr>fetchInProgress := True,
                       logged := logged w @ [Log ''Fetching user data'' (ForId uid)],
                       requests := requests w @ [GET (''/users/'' @ uid)],
                       clock := clock w + int (latency (apiClient env (GET (''/users/'' @ uid)))),
                       cachedUsers := (cachedUsers w)(uid \<mapsto> user),
                       lastFetchTime := clock w\<rparr>))
                 \<lparr>fetchInProgress := False\<rparr>)"
    by (intro fetch_alone_success) simp_all
  then show "\<exists>w'. getUserById (Suc n) env uid w = Some (Inr user, w')
           \<and> cachedUsers w' uid = Some user
           \<and> items w' = items w
           \<and> logged w' = logged w @ [Log ''Fetching user data'' (ForId uid),
                                      LogError ''Failed to save user to storage'' StorageFailure]"
    using h by (simp add: save_frame save_items save_logged)
next
  assume h: "getUserById n env uid w = Some (Inr fetched, w1)
       \<and> outcome (apiClient env
            (POST (''/users/'' @ uid @ ''/preferences'') (updatedPreferences fetched p)))
          = Inr posted
       \<and> setItemThrows env (''user_'' @ ident posted)
            (stringify env (posted\<lparr>preferences := Some (updatedPreferences fetched p)\<rparr>))"
  then have got: "getUserById n env uid w = Some (Inr fetched, w1)"
    by simp
  show "\<exists>w'. updateUserPreferences n env uid p w =
               Some (Inr (posted\<lparr>preferences := Some (updatedPreferences fetched p)\<rparr>), w')
           \<and> cachedUsers w' uid
               = Some (posted\<lparr>preferences := Some (updatedPreferences fetched p)\<rparr>)
           \<and> items w' = items w1
           \<and> logged w' = logged w1 @ [LogError ''Failed to save user to storage'' StorageFailure,
                                       Log ''Updated user preferences'' (ForUpdate uid p)]"
    using update_posted [OF got, of p] h
    by (simp add: post_succeeded logger_log_def save_frame save_items save_logged)
next
  show "map_option fst (getUserById n (env\<lparr>setItemThrows := f\<rparr>) uid w)
       = map_option fst (getUserById n env uid w)"
    by (rule fetch_result_same)
  show "map_option fst (updateUserPreferences n (env\<lparr>setItemThrows := f\<rparr>) uid p w)
       = map_option fst (updateUserPreferences n env uid p w)"
    by (rule update_result_same)
qed

text \<open>
  An instance of C8, with a storage whose \<open>setItem\<close> always throws: the fetch of \<open>u1\<close>
  and the update of \<open>u1\<close> resolve as they do with a storage that works.
\<close>

theorem C8_persistence_failure_swallowed_witness:
  "(\<exists>w'. getUserById (Suc 0) (demo_env True) ''u1'' new_world = Some (Inr demo_user, w')
        \<and> cachedUsers w' ''u1'' = Some demo_user
        \<and> items w' = items new_world
        \<and> logged w' = [Log ''Fetching user data'' (ForId ''u1''),
                        LogError ''Failed to save user to storage'' StorageFailure])
   \<and> updateUserPreferences (Suc 0) (demo_env True) ''u1'' french fresh_world
       = Some (Inr updated_user, updated_world True)
   \<and> items (updated_world True) = items fresh_world
   \<and> LogError ''Failed to save user to storage'' StorageFailure
       \<in> set (logged (updated_world True))
   \<and> map_option fst (updateUserPreferences (Suc 0) (demo_env False) ''u1'' french fresh_world)
       = Some (Inr updated_user)"
proof -
  have stale: "\<not> cacheFresh ''u1'' new_world"
    by (simp add: cacheFresh_def new_world_def)
  have idle: "\<not> fetchInProgress new_world"
    by (simp add: new_world_def)
  have served: "outcome (apiClient (demo_env True) (GET (''/users/'' @ ''u1''))) = Inr demo_user"
    by (simp add: demo_env_def demo_api_def)
  have full: "setItemThrows (demo_env True) k v" for k v
    by (simp add: demo_env_def)
  have a: "\<exists>w'. getUserById (Suc 0) (demo_env True) ''u1'' new_world = Some (Inr demo_user, w')
        \<and> cachedUsers w' ''u1'' = Some demo_user
        \<and> items w' = items new_world
        \<and> logged w' = logged new_world @ [Log ''Fetching user data'' (ForId ''u1''),
                        LogError ''Failed to save user to storage'' StorageFailure]"
    using C8_persistence_failure_swallowed
            [where uid = "''u1''" and w = new_world and env = "demo_env True"
               and user = demo_user and n = 0, THEN conjunct1]
          stale idle served full
    by blast
  have run: "updateUserPreferences (Suc 0) (demo_env True) ''u1'' french fresh_world
       = Some (Inr updated_user, updated_world True)"
    by (simp add: updateUserPreferences_def getUserById.simps getUserById_begin_def
          update_after_fetch_def update_after_post_def updatedPreferences_def
          spread_def spreadProperty_def defaultPreferences_def saveUserToStorage_def
          logger_log_def logger_error_def demo_env_def demo_api_def demo_user_def french_def
          fresh_world_def new_world_def updated_user_def updated_world_def Let_def)
  have same_env: "(demo_env True)\<lparr>setItemThrows := \<lambda>k v. False\<rparr> = demo_env False"
    by (simp add: demo_env_def)
  have b: "map_option fst (updateUserPreferences (Suc 0) (demo_env False) ''u1'' french fresh_world)
       = Some (Inr updated_user)"
    using C8_persistence_failure_swallowed
            [where uid = "''u1''" and w = fresh_world and env = "demo_env True"
               and n = "Suc 0" and p = french and f = "\<lambda>k v. False"]
          run same_env
    by simp
  have c: "items (updated_world True) = items fresh_world"
    "LogError ''Failed to save user to storage'' StorageFailure
       \<in> set (logged (updated_world True))"
    by (simp_all add: updated_world_def fresh_world_def new_world_def)
  have "logged new_world = []"
    by (simp add: new_world_def)
  with a run b c show ?thesis
    by simp
qed

text \<open>
  C9 (as amended). For every user whose contact address contains \<open>@\<close>, the
  contact-address component of the score (the score of the user less the score of the
  same user with an empty address) is the specification's rule applied to the part of
  the address between the first \<open>@\<close> and the next \<open>@\<close>, or the end of the address.
  When the address has exactly one \<open>@\<close> this part is the substring after the \<open>@\<close>.
\<close>

theorem C9_email_component:
  assumes "CHR ''@'' \<in> set (email u)"
  shows "\<exists>rest. calculateUserScore now (Some (u\<lparr>email := []\<rparr>)) = Inr rest
           \<and> calculateUserScore now (Some u) =
               Inr (rest + spec_domain_bonus
                      (takeWhile (\<lambda>c. c \<noteq> CHR ''@'') (after_first_at (email u))))
           \<and> (CHR ''@'' \<notin> set (after_first_at (email u)) \<longrightarrow>
                calculateUserScore now (Some u) =
                  Inr (rest + spec_domain_bonus (after_first_at (email u))))"
proof -
  let ?seg = "takeWhile (\<lambda>c. c \<noteq> CHR ''@'') (after_first_at (email u))"
  let ?rest = "10 + loginFactor now (lastLogin u) + nameFactor (name u)
                 + preferencesFactor (preferences u)"
  have blank: "calculateUserScore now (Some (u\<lparr>email := []\<rparr>)) = Inr ?rest"
    by (simp add: calculateUserScore_def emailFactor_def)
  have whole: "calculateUserScore now (Some u) = Inr (?rest + spec_domain_bonus ?seg)"
    by (simp add: calculateUserScore_def emailFactor_with_at [OF assms])
  have full: "?seg = after_first_at (email u)"
    if "CHR ''@'' \<notin> set (after_first_at (email u))"
    using that by (intro takeWhile_eq_all_conv [THEN iffD2]) auto
  from blank whole full show ?thesis
    by metis
qed

text \<open>
  An instance of C9: the address \<open>jo@mit.edu\<close> earns the \<open>.edu\<close> bonus of 10.
\<close>

theorem C9_email_component_witness:
  "CHR ''@'' \<in> set (email edu_user)
   \<and> calculateUserScore 0 (Some (edu_user\<lparr>email := []\<rparr>)) = Inr 15
   \<and> after_first_at (email edu_user) = ''mit.edu''
   \<and> calculateUserScore 0 (Some edu_user) = Inr (15 + 10)"
proof -
  have h: "CHR ''@'' \<in> set (email edu_user)"
    by (simp add: edu_user_def)
  have r: "calculateUserScore 0 (Some (edu_user\<lparr>email := []\<rparr>)) = Inr 15"
    by (simp add: edu_user_def score_defs)
  have a: "after_first_at (email edu_user) = ''mit.edu''"
    by (simp add: edu_user_def after_first_at_def)
  have b: "spec_domain_bonus ''mit.edu'' = 10"
    by (simp add: spec_domain_bonus_def endsWith_def)
  have n: "CHR ''@'' \<notin> set ''mit.edu''"
    by simp
  from C9_email_component [OF h, of 0] r a b n show ?thesis
    using h by auto
qed

text \<open>
  C9 as first stated fails for an address with two \<open>@\<close>: for \<open>a@gmail.com@x\<close> the
  substring after the first \<open>@\<close> is \<open>gmail.com@x\<close>, for which the rule gives 2, while
  \<open>split('@')[1]\<close> is \<open>gmail.com\<close> and the score rises by 5.
\<close>

theorem C9_counterexample:
  "CHR ''@'' \<in> set (email two_at_user)
   \<and> after_first_at (email two_at_user) = ''gmail.com@x''
   \<and> spec_domain_bonus (after_first_at (email two_at_user)) = 2
   \<and> calculateUserScore 0 (Some (two_at_user\<lparr>email := []\<rparr>)) = Inr 15
   \<and> calculateUserScore 0 (Some two_at_user) = Inr (15 + 5)"
  by (simp add: two_at_user_def after_first_at_def spec_domain_bonus_def score_defs)

text \<open>
  C10. For a user whose contact address is not empty and contains no \<open>@\<close>,
  \<open>calculateUserScore\<close> returns no number: \<open>split('@')[1]\<close> is \<open>undefined\<close> and
  \<open>domain.endsWith\<close> throws a \<open>TypeError\<close>.
\<close>

theorem C10_no_at_raises:
  assumes "email u \<noteq> []" and "CHR ''@'' \<notin> set (email u)"
  shows "calculateUserScore now (Some u) = Inl TypeError"
  using emailFactor_no_at [OF assms] by (simp add: calculateUserScore_def)

text \<open>An instance of C10: the address \<open>jo.example.com\<close>.\<close>

theorem C10_no_at_raises_witness:
  "email no_at_user \<noteq> [] \<and> CHR ''@'' \<notin> set (email no_at_user)
   \<and> calculateUserScore 0 (Some no_at_user) = Inl TypeError"
proof -
  have h1: "email no_at_user \<noteq> []"
    by (simp add: no_at_user_def)
  have h2: "CHR ''@'' \<notin> set (email no_at_user)"
    by (simp add: no_at_user_def)
  from C10_no_at_raises [OF h1 h2] h1 h2 show ?thesis
    by simp
qed

end
